theory Spec2Isabelle
  imports Main "HOL-Library.AList"
begin

section \<open>The scrape context of app/spider/context.go\<close>

text \<open>
  A shallow embedding of \<^verbatim>\<open>Context\<close> and its methods. Pointers that may be nil
  are options, a nil dereference is the panic \<open>NilDereference\<close>, Go maps that the
  code ranges over are association lists (the order of the list is the order in which
  the runtime happens to visit the keys), and every method returns the context it
  leaves behind together with the lines it logged. The owning spider is held by value
  inside the context: what the methods do to \<^verbatim>\<open>self.spider\<close> is read off the
  context they return.
\<close>

subsection \<open>Dynamic values\<close>

type_synonym bytes = string

text \<open>
  Values of type \<^verbatim>\<open>interface{}\<close>, by dynamic type: the types the type
  assertions and type switches of context.go name, and \<open>DOther\<close> for every other one
  (tagged with the name of its type).
\<close>

datatype dyn =
    DNil
  | DString string
  | DBool bool
  | DInt64 int
  | DStrings "string list"
  | DMapString "(string \<times> dyn) list"
  | DMapInt "(int \<times> dyn) list"
  | DTemp "(string \<times> dyn) list"
  | DOther string

subsection \<open>Slices\<close>

text \<open>
  A slice is its backing array (from the slice's first element to its capacity) and
  its length. \<^verbatim>\<open>s[:0]\<close> keeps the array, \<^verbatim>\<open>[]T{}\<close> is a new one.
  \<^verbatim>\<open>append\<close> writes in place while there is room; otherwise it moves the
  elements to a new array (the runtime picks its capacity: here the smallest one, the
  room beyond the length is read nowhere in context.go).
\<close>

record 'a slice =
  backing :: "'a list"
  len :: nat

definition slice_elems :: "'a slice \<Rightarrow> 'a list" where
  "slice_elems s = take (len s) (backing s)"

definition slice_new :: "'a slice" where
  "slice_new = \<lparr>backing = [], len = 0\<rparr>"

definition slice_to0 :: "'a slice \<Rightarrow> 'a slice" where
  "slice_to0 s = s\<lparr>len := 0\<rparr>"

definition slice_append :: "'a slice \<Rightarrow> 'a \<Rightarrow> 'a slice" where
  "slice_append s x =
     (if len s < length (backing s)
      then \<lparr>backing = (backing s)[len s := x], len = Suc (len s)\<rparr>
      else \<lparr>backing = slice_elems s @ [x], len = Suc (len s)\<rparr>)"

subsection \<open>Requests, responses, rules, spiders\<close>

type_synonym header = "(string \<times> string list) list"

text \<open>
  \<^verbatim>\<open>http.Header.Get\<close>: the first value stored under the key, the empty
  string when there is none. The keys context.go reads (\<^verbatim>\<open>Referer\<close>,
  \<^verbatim>\<open>Content-Type\<close>, \<^verbatim>\<open>Set-Cookie\<close>) are in canonical form already.
\<close>

definition Header_Get :: "header \<Rightarrow> string \<Rightarrow> string" where
  "Header_Get h k = (case map_of h k of Some (v # _) \<Rightarrow> v | _ \<Rightarrow> [])"

definition Header_Set :: "header \<Rightarrow> string \<Rightarrow> string \<Rightarrow> header" where
  "Header_Set h k v = AList.update k [v] h"

definition Header_Add :: "header \<Rightarrow> string \<Rightarrow> string \<Rightarrow> header" where
  "Header_Add h k v =
     AList.update k ((case map_of h k of Some vs \<Rightarrow> vs | None \<Rightarrow> []) @ [v]) h"

text \<open>
  \<^verbatim>\<open>request.Request\<close>: the fields JsAddQueue assigns, and the two that
  \<^verbatim>\<open>SetSpiderName\<close> and \<^verbatim>\<open>SetEnableCookie\<close> set. Durations and Go ints are
  integers (64 bits on the platforms the crawler runs on; no arithmetic is done on them
  here).
\<close>

record Request =
  Spider_name :: string
  Url :: string
  Rule :: string
  Method :: string
  Header :: header
  PostData :: string
  EnableCookie :: bool
  Reloadable :: bool
  DialTimeout :: int
  ConnTimeout :: int
  RetryPause :: int
  TryTimes :: int
  RedirectTimes :: int
  Priority :: int
  DownloaderID :: int
  Temp :: "(string \<times> dyn) list"

text \<open>The zero value \<^verbatim>\<open>request.Request{}\<close>.\<close>

definition Request_zero :: Request where
  "Request_zero =
     \<lparr>Spider_name = [], Url = [], Rule = [], Method = [], Header = [], PostData = [],
      EnableCookie = False, Reloadable = False, DialTimeout = 0, ConnTimeout = 0,
      RetryPause = 0, TryTimes = 0, RedirectTimes = 0, Priority = 0, DownloaderID = 0,
      Temp = []\<rparr>"

text \<open>
  The body of a response is a stream that is read once: the bytes still to come, the
  error the stream breaks with instead of ending, whether it has been closed, and
  whether reading it once closed is an error (the bodies net/http reads off a
  connection) or the end of the stream (\<^verbatim>\<open>http.NoBody\<close>, a
  \<^verbatim>\<open>NopCloser\<close> round a reader). A broken stream stays broken.
\<close>

record Body =
  Data :: bytes
  Broken :: "string option"
  Closed :: bool
  ErrAfterClose :: bool

text \<open>\<^verbatim>\<open>ioutil.ReadAll\<close>: the bytes read, the error that came with them, and the stream left.\<close>

definition ReadAll :: "Body \<Rightarrow> bytes \<times> string option \<times> Body" where
  "ReadAll b =
     (if Closed b \<and> ErrAfterClose b then ([], Some ''http: read on closed response body'', b)
      else (Data b, Broken b, b\<lparr>Data := []\<rparr>))"

definition Close :: "Body \<Rightarrow> Body" where
  "Close b = b\<lparr>Closed := True\<rparr>"

record http_Request =
  rq_Header :: header

record http_Response =
  rs_Header :: header
  rs_Body :: Body
  rs_Request :: http_Request

datatype handler = Handler nat

record Rule =
  ItemFields :: "string list"
  ParseFunc :: handler
  AidFunc :: handler

record RuleTree =
  Root :: handler
  Trunk :: "string \<rightharpoonup> Rule"

text \<open>
  Modelled from the spec: the type \<^verbatim>\<open>Spider\<close> is declared in another file of the
  package. context.go reads its field \<^verbatim>\<open>NotDefaultField\<close> and its
  \<^verbatim>\<open>RuleTree.Root\<close>; the rule table, the name, the cookie policy, the stop
  signal that \<^verbatim>\<open>tryPanic\<close> consults and the submission queue that
  \<^verbatim>\<open>RequestPush\<close> feeds are the owning unit's parts the spec names.
\<close>

record Spider =
  Name :: string
  enableCookie :: bool
  NotDefaultField :: bool
  RuleTree :: RuleTree
  stopping :: bool
  queue :: "Request list"

subsection \<open>Records, files and the context\<close>

text \<open>
  Modelled from the spec: \<^verbatim>\<open>data.DataCell\<close> and \<^verbatim>\<open>data.FileCell\<close> are
  declared in the collector package; \<^verbatim>\<open>GetDataCell\<close> and \<^verbatim>\<open>GetFileCell\<close>
  build them from their arguments, in this order. The field mapping of a record may
  be the nil map (\<open>None\<close>).
\<close>

record DataCell =
  RuleName :: string
  Fields :: "(string \<times> dyn) list option"
  SourceUrl :: string
  ParentUrl :: string
  DownloadTime :: string

definition GetDataCell ::
  "string \<Rightarrow> (string \<times> dyn) list option \<Rightarrow> string \<Rightarrow> string \<Rightarrow> string \<Rightarrow> DataCell" where
  "GetDataCell rule fs url parent time =
     \<lparr>RuleName = rule, Fields = fs, SourceUrl = url, ParentUrl = parent, DownloadTime = time\<rparr>"

record FileCell =
  FileRule :: string
  FileName :: string
  FileBytes :: bytes

definition GetFileCell :: "string \<Rightarrow> string \<Rightarrow> bytes \<Rightarrow> FileCell" where
  "GetFileCell rule name bs = \<lparr>FileRule = rule, FileName = name, FileBytes = bs\<rparr>"

datatype Document = Document nat

text \<open>
  The context, field by field. The embedded \<^verbatim>\<open>sync.Mutex\<close> is kept by its
  state: \<open>True\<close> when it is locked.
\<close>

record Context =
  spider :: "Spider option"
  Request :: "Request option"
  Response :: "http_Response option"
  ctx_text :: string
  ctx_dom :: "Document option"
  items :: "DataCell slice"
  files :: "FileCell slice"
  err :: "string option"
  Mutex :: bool

subsection \<open>The pool: GetContext and PutContext\<close>

text \<open>
  \<^verbatim>\<open>contextPool\<close> is a \<^verbatim>\<open>sync.Pool\<close>: the contexts put back and not yet
  taken. \<^verbatim>\<open>Get\<close> hands out any one of them, or ignores them and calls
  \<^verbatim>\<open>New\<close>; which, is the runtime's choice (\<open>pick\<close>).
\<close>

definition contextPool_New :: Context where
  "contextPool_New =
     \<lparr>spider = None, Request = None, Response = None, ctx_text = [], ctx_dom = None,
      items = slice_new, files = slice_new, err = None, Mutex = False\<rparr>"

definition contextPool_Get :: "nat option \<Rightarrow> Context list \<Rightarrow> Context \<times> Context list" where
  "contextPool_Get pick pool =
     (case pick of
        None \<Rightarrow> (contextPool_New, pool)
      | Some i \<Rightarrow>
          if i < length pool then (pool ! i, take i pool @ drop (Suc i) pool)
          else (contextPool_New, pool))"

definition contextPool_Put :: "Context \<Rightarrow> Context list \<Rightarrow> Context list" where
  "contextPool_Put ctx pool = pool @ [ctx]"

definition GetContext ::
  "nat option \<Rightarrow> Spider option \<Rightarrow> Request option \<Rightarrow> Context list \<Rightarrow> Context \<times> Context list" where
  "GetContext pick sp req pool =
     (case contextPool_Get pick pool of
        (ctx, pool') \<Rightarrow> (ctx\<lparr>spider := sp, Request := req\<rparr>, pool'))"

text \<open>
  The eight assignments of PutContext, before the context goes back to the pool. None
  of them is to the mutex.
\<close>

definition PutContext_clear :: "Context \<Rightarrow> Context" where
  "PutContext_clear ctx =
     ctx\<lparr>items := slice_to0 (items ctx), files := slice_to0 (files ctx), spider := None,
         Request := None, Response := None, ctx_text := [], ctx_dom := None, err := None\<rparr>"

definition PutContext :: "Context \<Rightarrow> Context list \<Rightarrow> Context list" where
  "PutContext ctx pool = contextPool_Put (PutContext_clear ctx) pool"

definition SetResponse :: "http_Response option \<Rightarrow> Context \<Rightarrow> Context" where
  "SetResponse resp c = c\<lparr>Response := resp\<rparr>"

text \<open>
  The pools a program can reach: the package's pool starts empty, only these two
  functions touch it, and the runtime may drop a pooled context at any time.
\<close>

inductive pool_reachable :: "Context list \<Rightarrow> bool" where
  pool_init: "pool_reachable []"
| pool_put: "pool_reachable pool \<Longrightarrow> pool_reachable (PutContext ctx pool)"
| pool_get: "pool_reachable pool \<Longrightarrow> pool_reachable (snd (GetContext pick sp req pool))"
| pool_drop: "pool_reachable pool \<Longrightarrow> pool_reachable (take i pool @ drop (Suc i) pool)"

subsection \<open>Outcomes, the log, and the libraries\<close>

datatype panic = NilDereference | ForcedStop | ErrorPanic string

text \<open>
  The lines written through \<^verbatim>\<open>logs.Log\<close>. The messages are kept by their
  parts: the method that missed its rule and the spider's name; the text of an error;
  the url and the error of a transcoding that was given up.
\<close>

datatype message =
    RuleMissing string string
  | ErrorText string
  | ConvertIgnored string string

datatype log_entry = Log_Error message | Log_Warning message

text \<open>
  How a call of a method stands: it has returned a value, it has panicked, or it waits
  at a \<^verbatim>\<open>Lock\<close> for the context's mutex, where it stays unless another
  goroutine unlocks the mutex. In each case the context is left as the statements run
  so far made it, and the lines logged so far are out.
\<close>

datatype 'a outcome =
    Returned 'a Context "log_entry list"
  | Panicked panic Context "log_entry list"
  | Blocked Context "log_entry list"

text \<open>
  What context.go calls in other packages and in the Go libraries, and takes as it
  comes: \<^verbatim>\<open>mime.ParseMediaType\<close> (the parameters, \<open>None\<close> on an error),
  \<^verbatim>\<open>strings.ToLower\<close>, \<^verbatim>\<open>strings.TrimSpace\<close>,
  \<^verbatim>\<open>charset.NewReaderLabel\<close> (an error, or the decoder of the label: run on
  the bytes of a stream it gives the transcoded bytes, or an error and how many bytes
  it had taken from the stream by then), \<^verbatim>\<open>goquery.NewDocumentFromReader\<close>,
  \<^verbatim>\<open>Request.Prepare\<close> (an error, or the request normalised) and
  \<^verbatim>\<open>textproto.CanonicalMIMEHeaderKey\<close>.
\<close>

record extern =
  ParseMediaType :: "string \<Rightarrow> (string \<rightharpoonup> string) option"
  ToLower :: "string \<Rightarrow> string"
  TrimSpace :: "string \<Rightarrow> string"
  NewReaderLabel :: "string \<Rightarrow> string + (bytes \<Rightarrow> (string \<times> nat) + bytes)"
  NewDocumentFromReader :: "string \<Rightarrow> string + Document"
  Prepare :: "Request \<Rightarrow> string + Request"
  CanonicalMIMEHeaderKey :: "string \<Rightarrow> string"

subsection \<open>The mutex and the buffers: emission and draining\<close>

text \<open>
  \<^verbatim>\<open>Lock\<close> takes the mutex when it is free; when it is held the caller
  waits (\<open>None\<close>) for another goroutine to unlock it. \<^verbatim>\<open>Unlock\<close> frees
  it; in context.go every \<^verbatim>\<open>Unlock\<close> follows the \<^verbatim>\<open>Lock\<close> of
  the same method.
\<close>

definition Lock :: "Context \<Rightarrow> Context option" where
  "Lock c = (if Mutex c then None else Some (c\<lparr>Mutex := True\<rparr>))"

definition Unlock :: "Context \<Rightarrow> Context" where
  "Unlock c = c\<lparr>Mutex := False\<rparr>"

text \<open>
  The appends Output and FileOutput make between \<^verbatim>\<open>Lock\<close> and
  \<^verbatim>\<open>Unlock\<close>, and PullItems and PullFiles, which take the same mutex.
\<close>

definition items_append :: "DataCell \<Rightarrow> Context \<Rightarrow> Context" where
  "items_append cell c = c\<lparr>items := slice_append (items c) cell\<rparr>"

definition files_append :: "FileCell \<Rightarrow> Context \<Rightarrow> Context" where
  "files_append cell c = c\<lparr>files := slice_append (files c) cell\<rparr>"

definition PullItems :: "Context \<Rightarrow> DataCell slice outcome" where
  "PullItems c =
     (case Lock c of
        None \<Rightarrow> Blocked c []
      | Some c1 \<Rightarrow> Returned (items c1) (Unlock (c1\<lparr>items := slice_new\<rparr>)) [])"

definition PullFiles :: "Context \<Rightarrow> FileCell slice outcome" where
  "PullFiles c =
     (case Lock c of
        None \<Rightarrow> Blocked c []
      | Some c1 \<Rightarrow> Returned (files c1) (Unlock (c1\<lparr>files := slice_new\<rparr>)) [])"








subsection \<open>The spider's and the request's methods\<close>

text \<open>
  Modelled from the spec: the methods of \<^verbatim>\<open>Spider\<close> and of
  \<^verbatim>\<open>request.Request\<close> that context.go calls are not in context.go. The rule
  table is looked up by name; \<^verbatim>\<open>tryPanic\<close> unwinds the goroutine when the
  spider has been told to stop (the comment at each of its calls); a field name is
  appended to a rule's table unless it is there, and its position is returned (the
  comment of \<^verbatim>\<open>Context.UpsertItemField\<close>); a position outside the table
  gives the empty field name (the comment of \<^verbatim>\<open>Context.GetItemField\<close>);
  \<^verbatim>\<open>RequestPush\<close> hands the request to the submission queue; the getters and
  setters read and write one field.
\<close>

definition GetName :: "Spider \<Rightarrow> string" where
  "GetName sp = Name sp"

definition GetEnableCookie :: "Spider \<Rightarrow> bool" where
  "GetEnableCookie sp = enableCookie sp"

definition Spider_GetRule :: "Spider \<Rightarrow> string \<Rightarrow> Rule option" where
  "Spider_GetRule sp name = Trunk (RuleTree sp) name"

definition tryPanic :: "Spider \<Rightarrow> panic option" where
  "tryPanic sp = (if stopping sp then Some ForcedStop else None)"

definition RequestPush :: "Request \<Rightarrow> Spider \<Rightarrow> Spider" where
  "RequestPush req sp = sp\<lparr>queue := queue sp @ [req]\<rparr>"

fun index_of :: "string \<Rightarrow> string list \<Rightarrow> nat option" where
  "index_of x [] = None"
| "index_of x (y # ys) =
     (if x = y then Some 0 else (case index_of x ys of None \<Rightarrow> None | Some i \<Rightarrow> Some (Suc i)))"

definition Spider_UpsertItemField :: "Rule \<Rightarrow> string \<Rightarrow> nat \<times> Rule" where
  "Spider_UpsertItemField rule field =
     (case index_of field (ItemFields rule) of
        Some i \<Rightarrow> (i, rule)
      | None \<Rightarrow> (length (ItemFields rule), rule\<lparr>ItemFields := ItemFields rule @ [field]\<rparr>))"

definition Spider_GetItemField :: "Rule \<Rightarrow> int \<Rightarrow> string" where
  "Spider_GetItemField rule index =
     (if 0 \<le> index \<and> index < int (length (ItemFields rule))
      then ItemFields rule ! nat index else [])"

text \<open>
  A \<^verbatim>\<open>*Rule\<close> got from the table under a name points into the table: what is
  written through it is the table's entry under that name.
\<close>

definition store_rule :: "string \<Rightarrow> Rule \<Rightarrow> Spider \<Rightarrow> Spider" where
  "store_rule name rule sp =
     sp\<lparr>RuleTree := (RuleTree sp)\<lparr>Trunk := (Trunk (RuleTree sp))(name \<mapsto> rule)\<rparr>\<rparr>"

definition SetSpiderName :: "string \<Rightarrow> Request \<Rightarrow> Request" where
  "SetSpiderName name req = req\<lparr>Spider_name := name\<rparr>"

definition SetEnableCookie :: "bool \<Rightarrow> Request \<Rightarrow> Request" where
  "SetEnableCookie b req = req\<lparr>EnableCookie := b\<rparr>"

definition Request_GetReferer :: "Request \<Rightarrow> string" where
  "Request_GetReferer req = Header_Get (Header req) ''Referer''"

definition Request_SetReferer :: "string \<Rightarrow> Request \<Rightarrow> Request" where
  "Request_SetReferer referer req = req\<lparr>Header := Header_Set (Header req) ''Referer'' referer\<rparr>"

definition SetRuleName :: "string \<Rightarrow> Request \<Rightarrow> Request" where
  "SetRuleName name req = req\<lparr>Rule := name\<rparr>"

text \<open>
  The downloader ids of the request package, as the comment of AddQueue gives them: 0
  is the Surf downloader.
\<close>

definition SURF_ID :: int where
  "SURF_ID = 0"

subsection \<open>Getters of the context\<close>

definition GetUrl :: "Context \<Rightarrow> panic + string" where
  "GetUrl c = (case Request c of None \<Rightarrow> Inl NilDereference | Some rq \<Rightarrow> Inr (Url rq))"

definition GetRuleName :: "Context \<Rightarrow> panic + string" where
  "GetRuleName c = (case Request c of None \<Rightarrow> Inl NilDereference | Some rq \<Rightarrow> Inr (Rule rq))"

definition GetReferer :: "Context \<Rightarrow> panic + string" where
  "GetReferer c =
     (case Response c of
        None \<Rightarrow> Inl NilDereference
      | Some resp \<Rightarrow> Inr (Header_Get (rq_Header (rs_Request resp)) ''Referer''))"

text \<open>
  getRule: the name, and the rule found under it (\<open>found\<close> is that there is one).
\<close>

definition getRule :: "string list \<Rightarrow> Context \<Rightarrow> panic + (string \<times> Rule option)" where
  "getRule ruleName c =
     (case ruleName of
        [] \<Rightarrow>
          (case Response c of
             None \<Rightarrow> Inr ([], None)
           | Some _ \<Rightarrow>
               (case GetRuleName c of
                  Inl p \<Rightarrow> Inl p
                | Inr name \<Rightarrow>
                    (case spider c of
                       None \<Rightarrow> Inl NilDereference
                     | Some sp \<Rightarrow> Inr (name, Spider_GetRule sp name))))
      | name # _ \<Rightarrow>
          (case spider c of
             None \<Rightarrow> Inl NilDereference
           | Some sp \<Rightarrow> Inr (name, Spider_GetRule sp name)))"

text \<open>The branch \<^verbatim>\<open>if !found\<close> of a method: it logs under its name and returns.\<close>

definition rule_missing :: "string \<Rightarrow> 'a \<Rightarrow> Context \<Rightarrow> 'a outcome" where
  "rule_missing method res c =
     (case spider c of
        None \<Rightarrow> Panicked NilDereference c []
      | Some sp \<Rightarrow> Returned res c [Log_Error (RuleMissing method (GetName sp))])"

subsection \<open>Output, CreatItem, FileOutput\<close>

definition CreatItem ::
  "(int \<times> dyn) list \<Rightarrow> string list \<Rightarrow> Context \<Rightarrow> (string \<times> dyn) list option outcome" where
  "CreatItem item ruleName c =
     (case getRule ruleName c of
        Inl p \<Rightarrow> Panicked p c []
      | Inr (_, None) \<Rightarrow> rule_missing ''CreatItem'' None c
      | Inr (_, Some rule) \<Rightarrow>
          Returned
            (Some (foldl (\<lambda>item2 (k, v). AList.update (Spider_GetItemField rule k) v item2) [] item))
            c [])"

text \<open>The loop \<^verbatim>\<open>for k := range item2 { self.spider.UpsertItemField(rule, k) }\<close>.\<close>

definition upsert_keys :: "Rule \<Rightarrow> string list \<Rightarrow> Rule" where
  "upsert_keys rule ks = foldl (\<lambda>r k. snd (Spider_UpsertItemField r k)) rule ks"

text \<open>The type switch of Output: the field mapping of the record, and the context left.\<close>

definition Output_switch ::
  "dyn \<Rightarrow> string \<Rightarrow> Rule \<Rightarrow> Context \<Rightarrow> (string \<times> dyn) list option outcome" where
  "Output_switch item rname rule c =
     (case item of
        DMapInt item2 \<Rightarrow> CreatItem item2 [rname] c
      | DTemp item2 \<Rightarrow>
          (case spider c of
             None \<Rightarrow> Panicked NilDereference c []
           | Some sp \<Rightarrow>
               Returned (Some item2)
                 (c\<lparr>spider := Some (store_rule rname (upsert_keys rule (map fst item2)) sp)\<rparr>) [])
      | DMapString item2 \<Rightarrow>
          (case spider c of
             None \<Rightarrow> Panicked NilDereference c []
           | Some sp \<Rightarrow>
               Returned (Some item2)
                 (c\<lparr>spider := Some (store_rule rname (upsert_keys rule (map fst item2)) sp)\<rparr>) [])
      | _ \<Rightarrow> Returned None c [])"

text \<open>
  Output. \<open>now\<close> is \<^verbatim>\<open>time.Now().Format("2006-01-02 15:04:05")\<close> at the call.
  The record is built between \<^verbatim>\<open>Lock\<close> and \<^verbatim>\<open>Unlock\<close>, with no
  deferred \<^verbatim>\<open>Unlock\<close>: a panic there leaves the mutex locked.
\<close>

definition Output :: "string \<Rightarrow> dyn \<Rightarrow> string list \<Rightarrow> Context \<Rightarrow> unit outcome" where
  "Output now item ruleName c =
     (case getRule ruleName c of
        Inl p \<Rightarrow> Panicked p c []
      | Inr (_, None) \<Rightarrow> rule_missing ''Output'' () c
      | Inr (rname, Some rule) \<Rightarrow>
          (case Output_switch item rname rule c of
             Panicked p c1 l \<Rightarrow> Panicked p c1 l
           | Blocked c1 l \<Rightarrow> Blocked c1 l
           | Returned fs c1 l \<Rightarrow>
               (case Lock c1 of
                  None \<Rightarrow> Blocked c1 l
                | Some c2 \<Rightarrow>
                    (case spider c2 of
                       None \<Rightarrow> Panicked NilDereference c2 l
                     | Some sp \<Rightarrow>
                         if NotDefaultField sp
                         then Returned ()
                                (Unlock (items_append (GetDataCell rname fs [] [] []) c2)) l
                         else
                           (case GetUrl c2 of
                              Inl p \<Rightarrow> Panicked p c2 l
                            | Inr url \<Rightarrow>
                                (case GetReferer c2 of
                                   Inl p \<Rightarrow> Panicked p c2 l
                                 | Inr referer \<Rightarrow>
                                     Returned ()
                                       (Unlock
                                          (items_append (GetDataCell rname fs url referer now) c2))
                                       l))))))"

text \<open>The names a record is keyed by; the nil mapping has none.\<close>

definition field_keys :: "DataCell \<Rightarrow> string set" where
  "field_keys cell = (case Fields cell of None \<Rightarrow> {} | Some fs \<Rightarrow> fst ` set fs)"

text \<open>The dynamic types the type switch of Output has a case for.\<close>

definition Output_supported :: "dyn \<Rightarrow> bool" where
  "Output_supported item =
     (case item of DMapInt _ \<Rightarrow> True | DTemp _ \<Rightarrow> True | DMapString _ \<Rightarrow> True | _ \<Rightarrow> False)"

text \<open>
  \<^verbatim>\<open>path.Split\<close> cuts after the last slash; \<^verbatim>\<open>strings.Split(s, sep)[0]\<close>
  with a separator of one byte is what stands before its first occurrence;
  \<^verbatim>\<open>path.Ext\<close> is the suffix from the last dot of the last element.
\<close>

definition path_Split :: "string \<Rightarrow> string \<times> string" where
  "path_Split p =
     (let f = rev (takeWhile (\<lambda>ch. ch \<noteq> CHR ''/'') (rev p))
      in (take (length p - length f) p, f))"

definition Split_first :: "string \<Rightarrow> char \<Rightarrow> string" where
  "Split_first s sep = takeWhile (\<lambda>ch. ch \<noteq> sep) s"

definition path_Ext :: "string \<Rightarrow> string" where
  "path_Ext p =
     (let e = takeWhile (\<lambda>ch. ch \<noteq> CHR ''.'' \<and> ch \<noteq> CHR ''/'') (rev p)
      in if length e < length p \<and> rev p ! length e = CHR ''.'' then CHR ''.'' # rev e else [])"

text \<open>The file name FileOutput settles on, from the url and the names given.\<close>

definition FileOutput_name :: "string \<Rightarrow> string list \<Rightarrow> string" where
  "FileOutput_name url name =
     (let s = snd (path_Split url);
          n = Split_first s (CHR ''?'');
          baseName = Split_first n (CHR ''.'');
          ext = path_Ext n;
          (baseName, ext) =
            (case name of
               [] \<Rightarrow> (baseName, ext)
             | name0 # _ \<Rightarrow>
                 (let (p, n) = path_Split name0;
                      baseName2 = Split_first n (CHR ''.'')
                  in (if baseName2 \<noteq> [] then p @ baseName2 else baseName,
                      if ext = [] then path_Ext n else ext)));
          ext = (if ext = [] then ''.html'' else ext)
      in baseName @ ext)"

definition FileOutput :: "string list \<Rightarrow> Context \<Rightarrow> unit outcome" where
  "FileOutput name c =
     (case Response c of
        None \<Rightarrow> Panicked NilDereference c []
      | Some resp \<Rightarrow>
          (case ReadAll (rs_Body resp) of
             (bs, e, b) \<Rightarrow>
               (let c1 = c\<lparr>Response := Some (resp\<lparr>rs_Body := Close b\<rparr>)\<rparr>
                in case e of
                     Some msg \<Rightarrow> Panicked (ErrorPanic msg) c1 []
                   | None \<Rightarrow>
                       (case Request c1 of
                          None \<Rightarrow> Panicked NilDereference c1 []
                        | Some rq \<Rightarrow>
                            (case Lock c1 of
                               None \<Rightarrow> Blocked c1 []
                             | Some c2 \<Rightarrow>
                                 Returned ()
                                   (Unlock
                                      (files_append
                                         (GetFileCell (Rule rq) (FileOutput_name (Url rq) name) bs)
                                         c2))
                                   [])))))"

subsection \<open>Parse\<close>

text \<open>
  \<^verbatim>\<open>ParseFunc\<close> and \<^verbatim>\<open>Root\<close> are functions the rule's author supplies.
  What running one does to a context is a parameter of Parse (\<open>call\<close>).
\<close>

definition Parse ::
  "(handler \<Rightarrow> Context \<Rightarrow> unit outcome) \<Rightarrow> string list \<Rightarrow> Context \<Rightarrow> unit outcome" where
  "Parse call ruleName c =
     (case spider c of
        None \<Rightarrow> Panicked NilDereference c []
      | Some sp \<Rightarrow>
          (case tryPanic sp of
             Some p \<Rightarrow> Panicked p c []
           | None \<Rightarrow>
               (case getRule ruleName c of
                  Inl p \<Rightarrow> Panicked p c []
                | Inr (rname, rule) \<Rightarrow>
                    (case (case Response c of
                             None \<Rightarrow> Inr c
                           | Some _ \<Rightarrow>
                               (case Request c of
                                  None \<Rightarrow> Inl NilDereference
                                | Some rq \<Rightarrow> Inr (c\<lparr>Request := Some (SetRuleName rname rq)\<rparr>))) of
                       Inl p \<Rightarrow> Panicked p c []
                     | Inr c1 \<Rightarrow>
                         (case rule of
                            None \<Rightarrow> call (Root (RuleTree sp)) c1
                          | Some r \<Rightarrow> call (ParseFunc r) c1)))))"

subsection \<open>AddQueue and JsAddQueue\<close>

text \<open>
  The statements the two methods share, from \<^verbatim>\<open>err := req. ... Prepare()\<close> to
  \<^verbatim>\<open>self.spider.RequestPush(req)\<close>.
\<close>

definition prepare_push :: "extern \<Rightarrow> Request \<Rightarrow> Spider \<Rightarrow> Context \<Rightarrow> unit outcome" where
  "prepare_push ex req sp c =
     (case Prepare ex (SetEnableCookie (GetEnableCookie sp) (SetSpiderName (GetName sp) req)) of
        Inl e \<Rightarrow> Returned () c [Log_Error (ErrorText e)]
      | Inr req1 \<Rightarrow>
          (if Request_GetReferer req1 = [] \<and> Response c \<noteq> None
           then
             (case GetUrl c of
                Inl p \<Rightarrow> Panicked p c []
              | Inr url \<Rightarrow>
                  Returned () (c\<lparr>spider := Some (RequestPush (Request_SetReferer url req1) sp)\<rparr>) [])
           else Returned () (c\<lparr>spider := Some (RequestPush req1 sp)\<rparr>) []))"

definition AddQueue :: "extern \<Rightarrow> Request \<Rightarrow> Context \<Rightarrow> unit outcome" where
  "AddQueue ex req c =
     (case spider c of
        None \<Rightarrow> Panicked NilDereference c []
      | Some sp \<Rightarrow>
          (case tryPanic sp of
             Some p \<Rightarrow> Panicked p c []
           | None \<Rightarrow> prepare_push ex req sp c))"

text \<open>The type assertions \<^verbatim>\<open>v, ok := jreq[key].(T)\<close>: the value when ok.\<close>

definition as_string :: "dyn option \<Rightarrow> string option" where
  "as_string v = (case v of Some (DString x) \<Rightarrow> Some x | _ \<Rightarrow> None)"

definition as_bool :: "dyn option \<Rightarrow> bool option" where
  "as_bool v = (case v of Some (DBool x) \<Rightarrow> Some x | _ \<Rightarrow> None)"

definition as_int64 :: "dyn option \<Rightarrow> int option" where
  "as_int64 v = (case v of Some (DInt64 x) \<Rightarrow> Some x | _ \<Rightarrow> None)"

definition as_map :: "dyn option \<Rightarrow> (string \<times> dyn) list option" where
  "as_map v = (case v of Some (DMapString x) \<Rightarrow> Some x | _ \<Rightarrow> None)"

definition as_strings :: "dyn option \<Rightarrow> string list option" where
  "as_strings v = (case v of Some (DStrings x) \<Rightarrow> Some x | _ \<Rightarrow> None)"

text \<open>The value assigned by \<^verbatim>\<open>x, _ = jreq[key].(T)\<close>: the zero value when not ok.\<close>

definition or_zero :: "'a \<Rightarrow> 'a option \<Rightarrow> 'a" where
  "or_zero z v = (case v of Some x \<Rightarrow> x | None \<Rightarrow> z)"

text \<open>The loop over \<^verbatim>\<open>jreq["Header"]\<close>, on the header built so far.\<close>

definition add_headers :: "extern \<Rightarrow> (string \<times> dyn) list \<Rightarrow> header \<Rightarrow> header" where
  "add_headers ex hs h0 =
     foldl (\<lambda>h (k, vs).
              (case as_strings (Some vs) of
                 Some vals \<Rightarrow> foldl (\<lambda>h' v. Header_Add h' (CanonicalMIMEHeaderKey ex k) v) h vals
               | None \<Rightarrow> h))
       h0 hs"

text \<open>
  The request JsAddQueue builds from the parameter bag; \<open>None\<close> when it returns
  early, \<^verbatim>\<open>Url\<close> not being a string.
\<close>

definition js_request :: "extern \<Rightarrow> (string \<rightharpoonup> dyn) \<Rightarrow> Request option" where
  "js_request ex jreq =
     (case as_string (jreq ''Url'') of
        None \<Rightarrow> None
      | Some u \<Rightarrow>
          Some (Request_zero
            \<lparr>Url := u,
             Rule := or_zero [] (as_string (jreq ''Rule'')),
             Method := or_zero [] (as_string (jreq ''Method'')),
             Header := (case as_map (jreq ''Header'') of
                          Some hs \<Rightarrow> add_headers ex hs []
                        | None \<Rightarrow> []),
             PostData := or_zero [] (as_string (jreq ''PostData'')),
             Reloadable := or_zero False (as_bool (jreq ''Reloadable'')),
             DialTimeout := or_zero 0 (as_int64 (jreq ''DialTimeout'')),
             ConnTimeout := or_zero 0 (as_int64 (jreq ''ConnTimeout'')),
             RetryPause := or_zero 0 (as_int64 (jreq ''RetryPause'')),
             TryTimes := or_zero 0 (as_int64 (jreq ''TryTimes'')),
             RedirectTimes := or_zero 0 (as_int64 (jreq ''RedirectTimes'')),
             Priority := or_zero 0 (as_int64 (jreq ''Priority'')),
             DownloaderID := or_zero 0 (as_int64 (jreq ''DownloaderID'')),
             Temp := or_zero [] (as_map (jreq ''Temp''))\<rparr>))"

definition JsAddQueue :: "extern \<Rightarrow> (string \<rightharpoonup> dyn) \<Rightarrow> Context \<Rightarrow> unit outcome" where
  "JsAddQueue ex jreq c =
     (case spider c of
        None \<Rightarrow> Panicked NilDereference c []
      | Some sp \<Rightarrow>
          (case tryPanic sp of
             Some p \<Rightarrow> Panicked p c []
           | None \<Rightarrow>
               (case js_request ex jreq of
                  None \<Rightarrow> Returned () c []
                | Some req \<Rightarrow> prepare_push ex req sp c)))"

text \<open>
  The shapes the fields of the parameter bag are expected in, as the spec's table of
  the dynamic interop surface lists them.
\<close>

definition expected_shape :: "string \<Rightarrow> dyn \<Rightarrow> bool" where
  "expected_shape key v =
     (if key \<in> {''Url'', ''Rule'', ''Method'', ''PostData''}
      then (case v of DString _ \<Rightarrow> True | _ \<Rightarrow> False)
      else if key = ''Reloadable''
      then (case v of DBool _ \<Rightarrow> True | _ \<Rightarrow> False)
      else if key \<in> {''DialTimeout'', ''ConnTimeout'', ''RetryPause'', ''TryTimes'',
                      ''RedirectTimes'', ''Priority'', ''DownloaderID''}
      then (case v of DInt64 _ \<Rightarrow> True | _ \<Rightarrow> False)
      else if key \<in> {''Header'', ''Temp''}
      then (case v of DMapString _ \<Rightarrow> True | _ \<Rightarrow> False)
      else False)"

subsection \<open>The decoded text and the document\<close>

definition ResetText :: "string \<Rightarrow> Context \<Rightarrow> Context" where
  "ResetText body c = c\<lparr>ctx_text := body, ctx_dom := None\<rparr>"

text \<open>
  The charset a content type declares, lowered and trimmed; empty when the content
  type does not parse or declares none.
\<close>

definition charset_of :: "extern \<Rightarrow> string \<Rightarrow> string" where
  "charset_of ex contentType =
     (case ParseMediaType ex contentType of
        None \<Rightarrow> []
      | Some params \<Rightarrow>
          (case params ''charset'' of
             None \<Rightarrow> []
           | Some cs \<Rightarrow> ToLower ex (TrimSpace ex cs)))"

definition pageEncode :: "extern \<Rightarrow> Request \<Rightarrow> http_Response \<Rightarrow> string" where
  "pageEncode ex rq resp =
     (let e = charset_of ex (Header_Get (rs_Header resp) ''Content-Type'')
      in if length e = 0 then charset_of ex (Header_Get (Header rq) ''Content-Type'') else e)"

text \<open>\<^verbatim>\<open>ioutil.ReadAll\<close> on the reader \<^verbatim>\<open>charset.NewReaderLabel\<close> wrapped round the body.\<close>

definition ReadAll_decoded ::
  "(bytes \<Rightarrow> (string \<times> nat) + bytes) \<Rightarrow> Body \<Rightarrow> (string + bytes) \<times> Body" where
  "ReadAll_decoded dec b =
     (if Closed b \<and> ErrAfterClose b then (Inl ''http: read on closed response body'', b)
      else
        (case dec (Data b) of
           Inl (e, n) \<Rightarrow> (Inl e, b\<lparr>Data := drop n (Data b)\<rparr>)
         | Inr out \<Rightarrow>
             (case Broken b of
                Some e \<Rightarrow> (Inl e, b\<lparr>Data := []\<rparr>)
              | None \<Rightarrow> (Inr out, b\<lparr>Data := []\<rparr>))))"

text \<open>The last statements of initText: the body read as it is.\<close>

definition initText_raw :: "Context \<Rightarrow> log_entry list \<Rightarrow> unit outcome" where
  "initText_raw c l =
     (case Response c of
        None \<Rightarrow> Panicked NilDereference c l
      | Some resp \<Rightarrow>
          (case ReadAll (rs_Body resp) of
             (sorbody, e, b) \<Rightarrow>
               (let c1 = c\<lparr>Response := Some (resp\<lparr>rs_Body := Close b\<rparr>)\<rparr>
                in case e of
                     Some msg \<Rightarrow> Panicked (ErrorPanic msg) c1 l
                   | None \<Rightarrow> Returned () (c1\<lparr>ctx_text := sorbody\<rparr>) l)))"

definition initText :: "extern \<Rightarrow> Context \<Rightarrow> unit outcome" where
  "initText ex c =
     (case Request c of
        None \<Rightarrow> Panicked NilDereference c []
      | Some rq \<Rightarrow>
          if DownloaderID rq = SURF_ID
          then
            (case Response c of
               None \<Rightarrow> Panicked NilDereference c []
             | Some resp \<Rightarrow>
                 (let enc = pageEncode ex rq resp
                  in if enc \<in> {[], ''utf8'', ''utf-8'', ''unicode-1-1-utf-8''}
                     then initText_raw c []
                     else
                       (case NewReaderLabel ex enc of
                          Inl e \<Rightarrow> initText_raw c [Log_Warning (ConvertIgnored (Url rq) e)]
                        | Inr dec \<Rightarrow>
                            (case ReadAll_decoded dec (rs_Body resp) of
                               (Inr sorbody, b) \<Rightarrow>
                                 Returned ()
                                   (c\<lparr>Response := Some (resp\<lparr>rs_Body := Close b\<rparr>),
                                      ctx_text := sorbody\<rparr>) []
                             | (Inl e, b) \<Rightarrow>
                                 initText_raw (c\<lparr>Response := Some (resp\<lparr>rs_Body := b\<rparr>)\<rparr>)
                                   [Log_Warning (ConvertIgnored (Url rq) e)]))))
          else initText_raw c [])"

definition GetText :: "extern \<Rightarrow> Context \<Rightarrow> string outcome" where
  "GetText ex c =
     (if ctx_text c = []
      then
        (case initText ex c of
           Panicked p c1 l \<Rightarrow> Panicked p c1 l
         | Blocked c1 l \<Rightarrow> Blocked c1 l
         | Returned _ c1 l \<Rightarrow> Returned (ctx_text c1) c1 l)
      else Returned (ctx_text c) c [])"

definition initDom :: "extern \<Rightarrow> Context \<Rightarrow> Document option outcome" where
  "initDom ex c =
     (case GetText ex c of
        Panicked p c1 l \<Rightarrow> Panicked p c1 l
      | Blocked c1 l \<Rightarrow> Blocked c1 l
      | Returned body c1 l \<Rightarrow>
          (case NewDocumentFromReader ex body of
             Inl e \<Rightarrow> Panicked (ErrorPanic e) (c1\<lparr>ctx_dom := None\<rparr>) (l @ [Log_Error (ErrorText e)])
           | Inr d \<Rightarrow> Returned (Some d) (c1\<lparr>ctx_dom := Some d\<rparr>) l))"

definition GetDom :: "extern \<Rightarrow> Context \<Rightarrow> Document option outcome" where
  "GetDom ex c =
     (case ctx_dom c of
        None \<Rightarrow>
          (case initDom ex c of
             Panicked p c1 l \<Rightarrow> Panicked p c1 l
           | Blocked c1 l \<Rightarrow> Blocked c1 l
           | Returned _ c1 l \<Rightarrow> Returned (ctx_dom c1) c1 l)
      | Some d \<Rightarrow> Returned (Some d) c [])"

subsection \<open>Sample values\<close>

text \<open>A spider with one rule, a request, a response and contexts to evaluate the methods on.\<close>

definition rule0 :: Rule where
  "rule0 = \<lparr>ItemFields = [''title''], ParseFunc = Handler 1, AidFunc = Handler 2\<rparr>"

definition spider0 :: Spider where
  "spider0 =
     \<lparr>Name = ''demo'', enableCookie = False, NotDefaultField = False,
      RuleTree = \<lparr>Root = Handler 0, Trunk = [''list'' \<mapsto> rule0]\<rparr>,
      stopping = False, queue = []\<rparr>"

definition request0 :: Request where
  "request0 = Request_zero\<lparr>Url := ''http://x.test/a/report.csv?x=1'', Rule := ''list''\<rparr>"

definition response0 :: http_Response where
  "response0 =
     \<lparr>rs_Header = [],
      rs_Body = \<lparr>Data = ''abc'', Broken = None, Closed = False, ErrAfterClose = True\<rparr>,
      rs_Request = \<lparr>rq_Header = [(''Referer'', [''http://x.test/''])]\<rparr>\<rparr>"

definition context0 :: Context where
  "context0 =
     contextPool_New\<lparr>spider := Some spider0, Request := Some request0, Response := Some response0\<rparr>"

definition cell0 :: DataCell where
  "cell0 = GetDataCell ''list'' (Some [(''title'', DString ''a'')]) ''u'' ''r'' ''t''"


definition file0 :: FileCell where
  "file0 = GetFileCell ''list'' ''report.csv'' ''abc''"

text \<open>A context in the middle of a cycle: text and document cached, a record and a file buffered.\<close>

definition context1 :: Context where
  "context1 =
     context0\<lparr>ctx_text := ''abc'', ctx_dom := Some (Document 0),
       items := slice_append slice_new cell0, files := slice_append slice_new file0,
       err := Some ''timeout''\<rparr>"

text \<open>
  The libraries on the inputs the samples use: two content types, the labels
  \<^verbatim>\<open>gbk\<close> (known; the sample decoder hands the bytes on) and
  \<^verbatim>\<open>klingon\<close> (unknown), a Prepare that refuses an empty url and fills in
  the method.
\<close>

definition extern0 :: extern where
  "extern0 =
     \<lparr>ParseMediaType =
        (\<lambda>s. if s = [] then None
             else if s = ''text/html; charset=GBK'' then Some [''charset'' \<mapsto> ''GBK'']
             else if s = ''text/html; charset=klingon'' then Some [''charset'' \<mapsto> ''klingon'']
             else Some Map.empty),
      ToLower = (\<lambda>s. if s = ''GBK'' then ''gbk'' else s),
      TrimSpace = (\<lambda>s. s),
      NewReaderLabel =
        (\<lambda>label. if label = ''gbk'' then Inr (\<lambda>bs. Inr bs)
                 else Inl (''unsupported charset: '' @ label)),
      NewDocumentFromReader = (\<lambda>body. Inr (Document (length body))),
      Prepare =
        (\<lambda>req. if Url req = [] then Inl ''empty url''
               else Inr (req\<lparr>Method := (if Method req = [] then ''GET'' else Method req)\<rparr>)),
      CanonicalMIMEHeaderKey = (\<lambda>k. k)\<rparr>"

text \<open>A request for AddQueue with no referer, and what the sample Prepare makes of it.\<close>

definition next_request :: Request where
  "next_request = Request_zero\<lparr>Url := ''http://x.test/next'', Rule := ''list''\<rparr>"

definition next_prepared :: Request where
  "next_prepared = next_request\<lparr>Spider_name := ''demo'', Method := ''GET''\<rparr>"

text \<open>The context a seed request starts with: no rule name, no response.\<close>

definition seed_context :: Context where
  "seed_context =
     contextPool_New\<lparr>spider := Some spider0,
       Request := Some (Request_zero\<lparr>Url := ''http://x.test/''\<rparr>)\<rparr>"

text \<open>The seed context as a panic between \<^verbatim>\<open>Lock\<close> and \<^verbatim>\<open>Unlock\<close> leaves it.\<close>

definition locked_context :: Context where
  "locked_context = seed_context\<lparr>Mutex := True\<rparr>"

definition stopped_context :: Context where
  "stopped_context = seed_context\<lparr>spider := Some (spider0\<lparr>stopping := True\<rparr>)\<rparr>"

text \<open>
  A response that declares the charset GBK and whose stream breaks after three bytes,
  one that declares an unknown charset, and one with an empty body.
\<close>

definition broken_gbk_context :: Context where
  "broken_gbk_context =
     context0\<lparr>Response := Some
       \<lparr>rs_Header = [(''Content-Type'', [''text/html; charset=GBK''])],
        rs_Body = \<lparr>Data = ''abc'', Broken = Some ''unexpected EOF'', Closed = False, ErrAfterClose = True\<rparr>,
        rs_Request = \<lparr>rq_Header = []\<rparr>\<rparr>\<rparr>"

definition klingon_context :: Context where
  "klingon_context =
     context0\<lparr>Response := Some
       \<lparr>rs_Header = [(''Content-Type'', [''text/html; charset=klingon''])],
        rs_Body = \<lparr>Data = ''abc'', Broken = None, Closed = False, ErrAfterClose = True\<rparr>,
        rs_Request = \<lparr>rq_Header = []\<rparr>\<rparr>\<rparr>"

definition empty_body_context :: Context where
  "empty_body_context =
     context0\<lparr>Response := Some
       \<lparr>rs_Header = [],
        rs_Body = \<lparr>Data = [], Broken = None, Closed = False, ErrAfterClose = True\<rparr>,
        rs_Request = \<lparr>rq_Header = []\<rparr>\<rparr>\<rparr>"

section \<open>Properties\<close>


lemma slice_elems_to0: "slice_elems (slice_to0 s) = []"
  by (simp add: slice_elems_def slice_to0_def)

lemma slice_elems_append: "slice_elems (slice_append s x) = slice_elems s @ [x]"
proof (cases "len s < length (backing s)")
  case True
  then show ?thesis
    by (simp add: slice_elems_def slice_append_def take_Suc_conv_app_nth)
next
  case False
  then show ?thesis
    by (simp add: slice_elems_def slice_append_def)
qed

subsection \<open>The pool\<close>

lemma slice_to0_eq: "slice_to0 s = \<lparr>backing = backing s, len = 0\<rparr>"
  by (cases s) (simp add: slice_to0_def)

lemma PutContext_clear_eq:
  "PutContext_clear ctx =
     \<lparr>spider = None, Request = None, Response = None, ctx_text = [], ctx_dom = None,
      items = \<lparr>backing = backing (items ctx), len = 0\<rparr>,
      files = \<lparr>backing = backing (files ctx), len = 0\<rparr>, err = None, Mutex = Mutex ctx\<rparr>"
  by (cases ctx) (simp add: PutContext_clear_def slice_to0_eq)

lemma PutContext_clear_idem: "PutContext_clear (PutContext_clear c) = PutContext_clear c"
  by (simp add: PutContext_clear_eq)

lemma PutContext_clear_New: "PutContext_clear contextPool_New = contextPool_New"
  by (simp add: PutContext_clear_eq contextPool_New_def slice_new_def)

lemma contextPool_Get_cases:
  assumes "contextPool_Get pick pool = (c, pool')"
  shows "(c = contextPool_New \<or> c \<in> set pool) \<and> set pool' \<subseteq> set pool"
proof (cases pick)
  case None
  with assms show ?thesis by (simp add: contextPool_Get_def)
next
  case (Some i)
  show ?thesis
  proof (cases "i < length pool")
    case True
    with Some assms have c: "c = pool ! i" and p: "pool' = take i pool @ drop (Suc i) pool"
      by (simp_all add: contextPool_Get_def)
    from True c have "c \<in> set pool" by simp
    moreover have "set pool' \<subseteq> set pool"
      unfolding p using set_take_subset [of i pool] set_drop_subset [of "Suc i" pool] by auto
    ultimately show ?thesis by simp
  next
    case False
    with Some assms show ?thesis by (simp add: contextPool_Get_def)
  qed
qed

lemma pool_reachable_cleared:
  "pool_reachable pool \<Longrightarrow> c \<in> set pool \<Longrightarrow> PutContext_clear c = c"
proof (induction arbitrary: c rule: pool_reachable.induct)
  case pool_init
  then show ?case by simp
next
  case (pool_put pool ctx)
  then show ?case
    by (auto simp: PutContext_def contextPool_Put_def PutContext_clear_idem)
next
  case (pool_get pool pick sp req)
  obtain x pool' where g: "contextPool_Get pick pool = (x, pool')"
    by (cases "contextPool_Get pick pool")
  then have "snd (GetContext pick sp req pool) = pool'"
    by (simp add: GetContext_def)
  with pool_get.prems contextPool_Get_cases [OF g] have "c \<in> set pool" by auto
  then show ?case by (rule pool_get.IH)
next
  case (pool_drop pool i)
  from pool_drop.prems have "c \<in> set pool"
    using set_take_subset [of i pool] set_drop_subset [of "Suc i" pool] by auto
  then show ?case by (rule pool_drop.IH)
qed

lemma cleared_fields:
  assumes "PutContext_clear c = c"
  shows "\<exists>bi bf. c = \<lparr>spider = None, Request = None, Response = None, ctx_text = [],
           ctx_dom = None, items = \<lparr>backing = bi, len = 0\<rparr>,
           files = \<lparr>backing = bf, len = 0\<rparr>, err = None, Mutex = Mutex c\<rparr>"
proof -
  have "c = \<lparr>spider = None, Request = None, Response = None, ctx_text = [],
           ctx_dom = None, items = \<lparr>backing = backing (items c), len = 0\<rparr>,
           files = \<lparr>backing = backing (files c), len = 0\<rparr>, err = None, Mutex = Mutex c\<rparr>"
    using PutContext_clear_eq [of c] assms by simp
  then show ?thesis by blast
qed

lemma Lock_free: "\<not> Mutex c \<Longrightarrow> Lock c = Some (c\<lparr>Mutex := True\<rparr>)"
  by (simp add: Lock_def)

lemma Lock_held: "Mutex c \<Longrightarrow> Lock c = None"
  by (simp add: Lock_def)

lemma locked_items_append:
  "\<not> Mutex c \<Longrightarrow> Unlock (items_append cell (c\<lparr>Mutex := True\<rparr>)) = items_append cell c"
  by (cases c) (simp add: Unlock_def items_append_def)




lemma PullItems_held: "Mutex c \<Longrightarrow> PullItems c = Blocked c []"
  by (simp add: PullItems_def Lock_def)

lemma PullFiles_held: "Mutex c \<Longrightarrow> PullFiles c = Blocked c []"
  by (simp add: PullFiles_def Lock_def)

text \<open>
  Claim C5, amended. PutContext clears every field of the context it puts back but the
  mutex: both buffers keep their backing arrays and get length zero (they are cut in
  place, not allocated anew), spider, request, response, text, document and error are
  detached, and the mutex stays as it is. A context released and handed out again is
  bound to the spider and the request given and carries, besides them, only the state
  of its mutex at the release. So does every context GetContext hands out from a pool
  that can be reached, recycled or new: no response, an empty text (GetText tests
  exactly this to decide that the text has to be computed), no document, no error, and
  buffers with no element; its mutex is free when the mutex of every pooled context
  is.
\<close>

theorem release_then_acquire:
  assumes "pool_reachable pool"
  shows "PutContext ctx pool = contextPool_Put
           \<lparr>spider = None, Request = None, Response = None, ctx_text = [], ctx_dom = None,
            items = \<lparr>backing = backing (items ctx), len = 0\<rparr>,
            files = \<lparr>backing = backing (files ctx), len = 0\<rparr>, err = None,
            Mutex = Mutex ctx\<rparr> pool
         \<and> pool_reachable (PutContext ctx pool)
         \<and> GetContext (Some (length pool)) sp req (PutContext ctx pool)
             = (\<lparr>spider = sp, Request = req, Response = None, ctx_text = [], ctx_dom = None,
                 items = \<lparr>backing = backing (items ctx), len = 0\<rparr>,
                 files = \<lparr>backing = backing (files ctx), len = 0\<rparr>, err = None,
                 Mutex = Mutex ctx\<rparr>, pool)
         \<and> (GetContext pick sp req pool = (c', pool') \<longrightarrow>
               (\<exists>bi bf. c' = \<lparr>spider = sp, Request = req, Response = None, ctx_text = [],
                  ctx_dom = None, items = \<lparr>backing = bi, len = 0\<rparr>,
                  files = \<lparr>backing = bf, len = 0\<rparr>, err = None, Mutex = Mutex c'\<rparr>)
               \<and> slice_elems (items c') = [] \<and> slice_elems (files c') = []
               \<and> pool_reachable pool'
               \<and> ((\<forall>x \<in> set pool. \<not> Mutex x) \<longrightarrow> \<not> Mutex c'))"
proof -
  have put: "PutContext ctx pool = contextPool_Put
           \<lparr>spider = None, Request = None, Response = None, ctx_text = [], ctx_dom = None,
            items = \<lparr>backing = backing (items ctx), len = 0\<rparr>,
            files = \<lparr>backing = backing (files ctx), len = 0\<rparr>, err = None,
            Mutex = Mutex ctx\<rparr> pool"
    by (simp add: PutContext_def PutContext_clear_eq)
  have reach: "pool_reachable (PutContext ctx pool)"
    using assms by (rule pool_put)
  have same: "GetContext (Some (length pool)) sp req (PutContext ctx pool)
             = (\<lparr>spider = sp, Request = req, Response = None, ctx_text = [], ctx_dom = None,
                 items = \<lparr>backing = backing (items ctx), len = 0\<rparr>,
                 files = \<lparr>backing = backing (files ctx), len = 0\<rparr>, err = None,
                 Mutex = Mutex ctx\<rparr>, pool)"
    unfolding put by (simp add: GetContext_def contextPool_Get_def contextPool_Put_def)
  have any: "GetContext pick sp req pool = (c', pool') \<longrightarrow>
               (\<exists>bi bf. c' = \<lparr>spider = sp, Request = req, Response = None, ctx_text = [],
                  ctx_dom = None, items = \<lparr>backing = bi, len = 0\<rparr>,
                  files = \<lparr>backing = bf, len = 0\<rparr>, err = None, Mutex = Mutex c'\<rparr>)
               \<and> slice_elems (items c') = [] \<and> slice_elems (files c') = []
               \<and> pool_reachable pool'
               \<and> ((\<forall>x \<in> set pool. \<not> Mutex x) \<longrightarrow> \<not> Mutex c')"
  proof
    assume g': "GetContext pick sp req pool = (c', pool')"
    obtain x q where g: "contextPool_Get pick pool = (x, q)"
      by (cases "contextPool_Get pick pool")
    with g' have c': "c' = x\<lparr>spider := sp, Request := req\<rparr>" and q: "pool' = q"
      by (simp_all add: GetContext_def)
    from contextPool_Get_cases [OF g] have origin: "x = contextPool_New \<or> x \<in> set pool"
      by simp
    then have "PutContext_clear x = x"
      using PutContext_clear_New pool_reachable_cleared [OF assms] by auto
    from cleared_fields [OF this] obtain bi bf where
      x: "x = \<lparr>spider = None, Request = None, Response = None, ctx_text = [],
             ctx_dom = None, items = \<lparr>backing = bi, len = 0\<rparr>,
             files = \<lparr>backing = bf, len = 0\<rparr>, err = None, Mutex = Mutex x\<rparr>" by blast
    have m: "Mutex c' = Mutex x" by (simp add: c')
    have "c' = \<lparr>spider = sp, Request = req, Response = None, ctx_text = [],
                 ctx_dom = None, items = \<lparr>backing = bi, len = 0\<rparr>,
                 files = \<lparr>backing = bf, len = 0\<rparr>, err = None, Mutex = Mutex x\<rparr>"
      unfolding c' by (subst x) simp
    then have shape: "c' = \<lparr>spider = sp, Request = req, Response = None, ctx_text = [],
                 ctx_dom = None, items = \<lparr>backing = bi, len = 0\<rparr>,
                 files = \<lparr>backing = bf, len = 0\<rparr>, err = None, Mutex = Mutex c'\<rparr>"
      using m by simp
    have e: "slice_elems (items c') = []" "slice_elems (files c') = []"
      by (subst shape, simp add: slice_elems_def)+
    have "pool_reachable (snd (GetContext pick sp req pool))"
      using assms by (rule pool_get)
    with g' have r: "pool_reachable pool'" by simp
    have free: "(\<forall>x \<in> set pool. \<not> Mutex x) \<longrightarrow> \<not> Mutex c'"
      using origin m by (auto simp: contextPool_New_def)
    from shape have ex: "\<exists>bi bf. c' = \<lparr>spider = sp, Request = req, Response = None,
                  ctx_text = [], ctx_dom = None, items = \<lparr>backing = bi, len = 0\<rparr>,
                  files = \<lparr>backing = bf, len = 0\<rparr>, err = None, Mutex = Mutex c'\<rparr>"
      by blast
    show "(\<exists>bi bf. c' = \<lparr>spider = sp, Request = req, Response = None, ctx_text = [],
                  ctx_dom = None, items = \<lparr>backing = bi, len = 0\<rparr>,
                  files = \<lparr>backing = bf, len = 0\<rparr>, err = None, Mutex = Mutex c'\<rparr>)
               \<and> slice_elems (items c') = [] \<and> slice_elems (files c') = []
               \<and> pool_reachable pool'
               \<and> ((\<forall>x \<in> set pool. \<not> Mutex x) \<longrightarrow> \<not> Mutex c')"
      by (intro conjI ex e r free)
  qed
  show ?thesis by (intro conjI put reach same any)
qed

theorem release_then_acquire_witness:
  "pool_reachable []
   \<and> PutContext context1 []
       = [\<lparr>spider = None, Request = None, Response = None, ctx_text = [], ctx_dom = None,
           items = \<lparr>backing = [cell0], len = 0\<rparr>,
           files = \<lparr>backing = [file0], len = 0\<rparr>, err = None, Mutex = False\<rparr>]
   \<and> GetContext (Some 0) (Some spider0) (Some request0) (PutContext context1 [])
       = (\<lparr>spider = Some spider0, Request = Some request0, Response = None, ctx_text = [],
           ctx_dom = None, items = \<lparr>backing = [cell0], len = 0\<rparr>,
           files = \<lparr>backing = [file0], len = 0\<rparr>, err = None, Mutex = False\<rparr>, [])
   \<and> GetContext None (Some spider0) (Some request0) []
       = (\<lparr>spider = Some spider0, Request = Some request0, Response = None, ctx_text = [],
           ctx_dom = None, items = \<lparr>backing = [], len = 0\<rparr>,
           files = \<lparr>backing = [], len = 0\<rparr>, err = None, Mutex = False\<rparr>, [])"
proof -
  have b: "backing (items context1) = [cell0]" "backing (files context1) = [file0]"
    "Mutex context1 = False"
    by (simp_all add: context1_def context0_def contextPool_New_def slice_append_def
        slice_new_def slice_elems_def)
  have g: "GetContext None (Some spider0) (Some request0) []
       = (\<lparr>spider = Some spider0, Request = Some request0, Response = None, ctx_text = [],
           ctx_dom = None, items = \<lparr>backing = [], len = 0\<rparr>,
           files = \<lparr>backing = [], len = 0\<rparr>, err = None, Mutex = False\<rparr>, [])"
    by (simp add: GetContext_def contextPool_Get_def contextPool_New_def slice_new_def)
  note t = release_then_acquire [OF pool_init, where ctx = context1 and sp = "Some spider0"
      and req = "Some request0" and pick = None and pool' = "[]"
      and c' = "\<lparr>spider = Some spider0, Request = Some request0, Response = None, ctx_text = [],
           ctx_dom = None, items = \<lparr>backing = [], len = 0\<rparr>,
           files = \<lparr>backing = [], len = 0\<rparr>, err = None, Mutex = False\<rparr>"]
  from t have p: "PutContext context1 []
       = [\<lparr>spider = None, Request = None, Response = None, ctx_text = [], ctx_dom = None,
           items = \<lparr>backing = [cell0], len = 0\<rparr>,
           files = \<lparr>backing = [file0], len = 0\<rparr>, err = None, Mutex = False\<rparr>]"
    by (simp add: b contextPool_Put_def)
  from t have "GetContext (Some (length ([] :: Context list))) (Some spider0) (Some request0)
        (PutContext context1 [])
       = (\<lparr>spider = Some spider0, Request = Some request0, Response = None, ctx_text = [],
           ctx_dom = None, items = \<lparr>backing = backing (items context1), len = 0\<rparr>,
           files = \<lparr>backing = backing (files context1), len = 0\<rparr>, err = None,
           Mutex = Mutex context1\<rparr>, [])"
    by (elim conjE)
  then have a: "GetContext (Some 0) (Some spider0) (Some request0) (PutContext context1 [])
       = (\<lparr>spider = Some spider0, Request = Some request0, Response = None, ctx_text = [],
           ctx_dom = None, items = \<lparr>backing = [cell0], len = 0\<rparr>,
           files = \<lparr>backing = [file0], len = 0\<rparr>, err = None, Mutex = False\<rparr>, [])"
    by (simp add: b)
  show ?thesis by (intro conjI pool_init p a g)
qed

text \<open>
  Claim C5 as it stands fails on the state of the mutex. Output on the context of a seed
  request, with a rule named, panics in GetReferer between \<^verbatim>\<open>Lock\<close> and
  \<^verbatim>\<open>Unlock\<close> and leaves the mutex locked. PutContext does not free it:
  released and handed out again, the context is not the one a fresh context gives for
  the same spider and request, its mutex is locked, and PullItems and PullFiles wait
  on it.
\<close>

theorem released_lock_kept_counterexample:
  "Output ''2016-01-02 03:04:05'' (DOther ''int'') [''list''] seed_context
     = Panicked NilDereference locked_context []
   \<and> pool_reachable []
   \<and> GetContext (Some 0) (Some spider0) (Some request0) (PutContext locked_context [])
       = (\<lparr>spider = Some spider0, Request = Some request0, Response = None, ctx_text = [],
           ctx_dom = None, items = \<lparr>backing = [], len = 0\<rparr>,
           files = \<lparr>backing = [], len = 0\<rparr>, err = None, Mutex = True\<rparr>, [])
   \<and> fst (GetContext (Some 0) (Some spider0) (Some request0) (PutContext locked_context []))
       \<noteq> fst (GetContext None (Some spider0) (Some request0) [])
   \<and> PullItems (fst (GetContext (Some 0) (Some spider0) (Some request0)
         (PutContext locked_context [])))
       = Blocked (fst (GetContext (Some 0) (Some spider0) (Some request0)
           (PutContext locked_context []))) []
   \<and> PullFiles (fst (GetContext (Some 0) (Some spider0) (Some request0)
         (PutContext locked_context [])))
       = Blocked (fst (GetContext (Some 0) (Some spider0) (Some request0)
           (PutContext locked_context []))) []"
proof -
  have o: "Output ''2016-01-02 03:04:05'' (DOther ''int'') [''list''] seed_context
     = Panicked NilDereference locked_context []"
    by (simp add: Output_def Output_switch_def getRule_def seed_context_def locked_context_def
        contextPool_New_def Spider_GetRule_def spider0_def GetUrl_def GetReferer_def Lock_def)
  have g: "GetContext (Some 0) (Some spider0) (Some request0) (PutContext locked_context [])
       = (\<lparr>spider = Some spider0, Request = Some request0, Response = None, ctx_text = [],
           ctx_dom = None, items = \<lparr>backing = [], len = 0\<rparr>,
           files = \<lparr>backing = [], len = 0\<rparr>, err = None, Mutex = True\<rparr>, [])"
    by (simp add: GetContext_def contextPool_Get_def contextPool_Put_def PutContext_def
        PutContext_clear_eq locked_context_def seed_context_def contextPool_New_def
        slice_new_def)
  have n: "GetContext None (Some spider0) (Some request0) []
       = (\<lparr>spider = Some spider0, Request = Some request0, Response = None, ctx_text = [],
           ctx_dom = None, items = \<lparr>backing = [], len = 0\<rparr>,
           files = \<lparr>backing = [], len = 0\<rparr>, err = None, Mutex = False\<rparr>, [])"
    by (simp add: GetContext_def contextPool_Get_def contextPool_New_def slice_new_def)
  have d: "fst (GetContext (Some 0) (Some spider0) (Some request0) (PutContext locked_context []))
       \<noteq> fst (GetContext None (Some spider0) (Some request0) [])"
    unfolding g n by simp
  have pi: "PullItems (fst (GetContext (Some 0) (Some spider0) (Some request0)
         (PutContext locked_context [])))
       = Blocked (fst (GetContext (Some 0) (Some spider0) (Some request0)
           (PutContext locked_context []))) []"
    unfolding g by (simp add: PullItems_held)
  have pf: "PullFiles (fst (GetContext (Some 0) (Some spider0) (Some request0)
         (PutContext locked_context [])))
       = Blocked (fst (GetContext (Some 0) (Some spider0) (Some request0)
           (PutContext locked_context []))) []"
    unfolding g by (simp add: PullFiles_held)
  show ?thesis by (intro conjI o pool_init g d pi pf)
qed

subsection \<open>Draining\<close>




















subsection \<open>Output and the field table\<close>

lemma index_of_None: "index_of x xs = None \<longleftrightarrow> x \<notin> set xs"
  by (induction xs) (auto split: option.splits)

lemma index_of_Some: "index_of x xs = Some i \<Longrightarrow> x \<in> set xs"
  using index_of_None [of x xs] by auto

lemma index_of_append_old: "x \<in> set xs \<Longrightarrow> index_of x (xs @ ys) = index_of x xs"
  by (induction xs) (auto split: option.splits)

lemma Upsert_fields:
  "ItemFields (snd (Spider_UpsertItemField r k))
     = (if k \<in> set (ItemFields r) then ItemFields r else ItemFields r @ [k])"
  by (auto simp: Spider_UpsertItemField_def index_of_None dest: index_of_Some split: option.splits)

lemma Upsert_old: "k \<in> set (ItemFields r) \<Longrightarrow> snd (Spider_UpsertItemField r k) = r"
  by (auto simp: Spider_UpsertItemField_def index_of_None split: option.splits)

lemma upsert_keys_Cons:
  "upsert_keys r (k # ks) = upsert_keys (snd (Spider_UpsertItemField r k)) ks"
  by (simp add: upsert_keys_def)

lemma upsert_keys_shape:
  "\<exists>new. ItemFields (upsert_keys r ks) = ItemFields r @ new \<and> distinct new
      \<and> set new = set ks - set (ItemFields r)"
proof (induction ks arbitrary: r)
  case Nil
  show ?case by (simp add: upsert_keys_def)
next
  case (Cons k ks)
  let ?r1 = "snd (Spider_UpsertItemField r k)"
  from Cons.IH [of ?r1] obtain new1 where
    n: "ItemFields (upsert_keys ?r1 ks) = ItemFields ?r1 @ new1" "distinct new1"
       "set new1 = set ks - set (ItemFields ?r1)" by blast
  show ?case
  proof (cases "k \<in> set (ItemFields r)")
    case True
    with n have "ItemFields (upsert_keys r (k # ks)) = ItemFields r @ new1 \<and> distinct new1
        \<and> set new1 = set (k # ks) - set (ItemFields r)"
      by (auto simp: upsert_keys_Cons Upsert_fields)
    then show ?thesis by blast
  next
    case False
    with n have "ItemFields (upsert_keys r (k # ks)) = ItemFields r @ (k # new1)
        \<and> distinct (k # new1) \<and> set (k # new1) = set (k # ks) - set (ItemFields r)"
      by (auto simp: upsert_keys_Cons Upsert_fields)
    then show ?thesis by blast
  qed
qed

lemma upsert_keys_known: "set ks \<subseteq> set (ItemFields r) \<Longrightarrow> upsert_keys r ks = r"
  by (induction ks) (simp_all add: upsert_keys_def Upsert_old)

lemma CreatItem_keys:
  "fst ` set (foldl (\<lambda>item2 (k, v). AList.update (f k) v item2) acc m)
     = fst ` set acc \<union> f ` fst ` set m"
proof (induction m arbitrary: acc)
  case Nil
  show ?case by simp
next
  case (Cons kv m)
  obtain k v where kv: "kv = (k, v)" by (cases kv)
  show ?case unfolding kv by (simp add: Cons.IH dom_update)
qed

lemma GetItemField_range:
  "Spider_GetItemField rule k \<in> set (ItemFields rule) \<union> {[]}"
  "0 \<le> k \<Longrightarrow> k < int (length (ItemFields rule)) \<Longrightarrow>
     Spider_GetItemField rule k \<in> set (ItemFields rule)"
  by (auto simp: Spider_GetItemField_def)

lemma getRule_found:
  assumes "spider c = Some sp" and "getRule ruleName c = Inr (rname, Some rule)"
  shows "Spider_GetRule sp rname = Some rule"
  using assms by (auto simp: getRule_def split: list.splits option.splits sum.splits)

lemma getters_locked:
  "GetUrl (c\<lparr>Mutex := m\<rparr>) = GetUrl c"
  "GetReferer (c\<lparr>Mutex := m\<rparr>) = GetReferer c"
  by (simp_all add: GetUrl_def GetReferer_def)

lemma Output_Returned:
  assumes "getRule ruleName c = Inr (rname, Some rule)"
    and "Output now item ruleName c = Returned () c' l"
  shows "\<exists>fs c1 url referer t. Output_switch item rname rule c = Returned fs c1 l
           \<and> c' = items_append (GetDataCell rname fs url referer t) c1"
  using assms
  by (auto simp: Output_def Lock_def locked_items_append
      split: outcome.splits option.splits if_splits sum.splits) blast+


lemma Output_switch_index:
  assumes "spider c = Some sp" and "Spider_GetRule sp rname = Some rule"
  shows "Output_switch (DMapInt m) rname rule c
           = Returned
               (Some (foldl (\<lambda>item2 (k, v). AList.update (Spider_GetItemField rule k) v item2) [] m))
               c []"
  using assms by (simp add: Output_switch_def CreatItem_def getRule_def)

lemma Output_switch_names:
  assumes "spider c = Some sp"
  shows "Output_switch (DMapString kvs) rname rule c
           = Returned (Some kvs)
               (c\<lparr>spider := Some (store_rule rname (upsert_keys rule (map fst kvs)) sp)\<rparr>) []"
    and "Output_switch (DTemp kvs) rname rule c
           = Returned (Some kvs)
               (c\<lparr>spider := Some (store_rule rname (upsert_keys rule (map fst kvs)) sp)\<rparr>) []"
  using assms by (simp_all add: Output_switch_def)

lemma Output_switch_unsupported:
  "\<not> Output_supported item \<Longrightarrow> Output_switch item rname rule c = Returned None c []"
  by (cases item) (simp_all add: Output_supported_def Output_switch_def)

lemma name_keyed_table:
  fixes rule :: Rule and kvs :: "(string \<times> dyn) list"
  defines "rule' \<equiv> upsert_keys rule (map fst kvs)"
  shows "fst ` set kvs \<subseteq> set (ItemFields rule')"
    and "\<exists>new. ItemFields rule' = ItemFields rule @ new \<and> distinct new
            \<and> set new = fst ` set kvs - set (ItemFields rule)"
    and "length (ItemFields rule')
         = length (ItemFields rule) + card (fst ` set kvs - set (ItemFields rule))"
    and "\<forall>k \<in> set (ItemFields rule). index_of k (ItemFields rule') = index_of k (ItemFields rule)"
    and "upsert_keys rule' (map fst kvs) = rule'"
proof -
  from upsert_keys_shape [of rule "map fst kvs"] obtain new where
    n: "ItemFields rule' = ItemFields rule @ new" "distinct new"
       "set new = fst ` set kvs - set (ItemFields rule)"
    unfolding rule'_def by auto
  show sub: "fst ` set kvs \<subseteq> set (ItemFields rule')"
    using n by auto
  show "\<exists>new. ItemFields rule' = ItemFields rule @ new \<and> distinct new
            \<and> set new = fst ` set kvs - set (ItemFields rule)"
    using n by blast
  show "length (ItemFields rule')
         = length (ItemFields rule) + card (fst ` set kvs - set (ItemFields rule))"
    using n distinct_card [of new] by simp
  show "\<forall>k \<in> set (ItemFields rule). index_of k (ItemFields rule') = index_of k (ItemFields rule)"
    using n(1) by (simp add: index_of_append_old)
  show "upsert_keys rule' (map fst kvs) = rule'"
    using sub by (intro upsert_keys_known) simp
qed

lemma getRule_unresolved:
  assumes "spider c = Some sp"
    and "ruleName = [] \<and> Response c = None
         \<or> (\<exists>name rest. ruleName = name # rest \<and> Spider_GetRule sp name = None)
         \<or> (\<exists>rq. ruleName = [] \<and> Response c \<noteq> None \<and> Request c = Some rq
               \<and> Spider_GetRule sp (Rule rq) = None)"
  shows "\<exists>n. getRule ruleName c = Inr (n, None)"
  using assms by (auto simp: getRule_def GetRuleName_def split: option.splits list.splits)

text \<open>
  Claim C9. When the rule of a call to Output or CreatItem does not resolve (no name is
  given and no response is bound; or the name given, or with no name given the name
  recorded on the bound request, is not in the spider's rule table), the call logs one
  error line, naming the method and the spider, and returns (CreatItem the nil
  mapping). It raises nothing and leaves the context as it was, so the record buffer
  and the field table of every rule are unchanged.
\<close>

theorem unresolved_rule_logged_noop:
  assumes "spider c = Some sp"
    and "ruleName = [] \<and> Response c = None
         \<or> (\<exists>name rest. ruleName = name # rest \<and> Spider_GetRule sp name = None)
         \<or> (\<exists>rq. ruleName = [] \<and> Response c \<noteq> None \<and> Request c = Some rq
               \<and> Spider_GetRule sp (Rule rq) = None)"
  shows "Output now item ruleName c
           = Returned () c [Log_Error (RuleMissing ''Output'' (GetName sp))]
         \<and> CreatItem item2 ruleName c
           = Returned None c [Log_Error (RuleMissing ''CreatItem'' (GetName sp))]"
proof -
  from getRule_unresolved [OF assms] obtain n where "getRule ruleName c = Inr (n, None)" ..
  with assms(1) show ?thesis
    by (simp add: Output_def CreatItem_def rule_missing_def)
qed

theorem unresolved_rule_logged_noop_witness:
  "spider context0 = Some spider0
   \<and> Spider_GetRule spider0 ''nope'' = None
   \<and> Output ''now'' (DMapString [(''price'', DNil)]) [''nope''] context0
       = Returned () context0 [Log_Error (RuleMissing ''Output'' ''demo'')]
   \<and> CreatItem [(0, DNil)] [''nope''] context0
       = Returned None context0 [Log_Error (RuleMissing ''CreatItem'' ''demo'')]
   \<and> Output ''now'' (DMapString [(''price'', DNil)]) [] (context0\<lparr>Response := None\<rparr>)
       = Returned () (context0\<lparr>Response := None\<rparr>) [Log_Error (RuleMissing ''Output'' ''demo'')]"
proof -
  have s: "spider context0 = Some spider0" "spider (context0\<lparr>Response := None\<rparr>) = Some spider0"
    by (simp_all add: context0_def)
  have n: "Spider_GetRule spider0 ''nope'' = None"
    by (simp add: Spider_GetRule_def spider0_def)
  have r: "Response (context0\<lparr>Response := None\<rparr>) = None" by simp
  have g: "GetName spider0 = ''demo''" by (simp add: GetName_def spider0_def)
  from unresolved_rule_logged_noop [OF s(1), of "[''nope'']" "''now''" "DMapString [(''price'', DNil)]" "[(0, DNil)]"]
       unresolved_rule_logged_noop [OF s(2), of "[]" "''now''" "DMapString [(''price'', DNil)]" "[]"]
       s n r g
  show ?thesis by simp
qed

text \<open>
  Claim C10, amended. On a context bound to a request and a response, or whose spider
  suppresses the default fields, and whose mutex is free, a call to Output whose rule
  resolves and whose item has a dynamic type the type switch has no case for (not an
  index-keyed map, not a Temp, not a name-keyed map) is no no-op and does not fail: it
  logs nothing and appends one record to the buffer, with the nil field mapping and the
  resolved rule name, and with the url, the referer and the timestamp unless the
  default fields are suppressed (then the three are empty). The spider is left as it
  was, and the mutex free. While the mutex is held the call waits at
  \<^verbatim>\<open>Lock\<close>, the context as it was.
\<close>

theorem unsupported_item_still_emitted:
  assumes "spider c = Some sp"
    and "getRule ruleName c = Inr (rname, Some rule)"
    and "\<not> Output_supported item"
    and "NotDefaultField sp \<or> Request c = Some rq \<and> Response c = Some resp"
  shows "Output now item ruleName c
           = (if Mutex c then Blocked c []
              else Returned ()
               (items_append
                  (if NotDefaultField sp then GetDataCell rname None [] [] []
                   else GetDataCell rname None (Url rq)
                          (Header_Get (rq_Header (rs_Request resp)) ''Referer'') now) c) [])
         \<and> (\<not> Mutex c \<longrightarrow>
              (\<exists>c' cell. Output now item ruleName c = Returned () c' []
                 \<and> slice_elems (items c') = slice_elems (items c) @ [cell]
                 \<and> RuleName cell = rname \<and> Fields cell = None \<and> spider c' = spider c
                 \<and> \<not> Mutex c'))"
proof (cases "Mutex c")
  case True
  with assms show ?thesis
    by (simp add: Output_def Output_switch_unsupported Lock_held)
next
  case False
  have out: "Output now item ruleName c
           = Returned ()
               (items_append
                  (if NotDefaultField sp then GetDataCell rname None [] [] []
                   else GetDataCell rname None (Url rq)
                          (Header_Get (rq_Header (rs_Request resp)) ''Referer'') now) c) []"
    using assms False
    by (auto simp: Output_def Output_switch_unsupported Lock_free locked_items_append
        GetUrl_def GetReferer_def)
  show ?thesis
    unfolding out using False
    by (simp add: items_append_def slice_elems_append GetDataCell_def)
qed

theorem unsupported_item_still_emitted_witness:
  "spider context0 = Some spider0
   \<and> getRule [] context0 = Inr (''list'', Some rule0)
   \<and> \<not> Output_supported (DOther ''int'')
   \<and> \<not> Mutex context0
   \<and> Output ''2016-01-02 03:04:05'' (DOther ''int'') [] context0
       = Returned ()
           (items_append
              (GetDataCell ''list'' None ''http://x.test/a/report.csv?x=1'' ''http://x.test/''
                 ''2016-01-02 03:04:05'') context0) []"
proof -
  have s: "spider context0 = Some spider0" by (simp add: context0_def)
  have g: "getRule [] context0 = Inr (''list'', Some rule0)"
    by (simp add: getRule_def GetRuleName_def context0_def Spider_GetRule_def spider0_def
        request0_def)
  have u: "\<not> Output_supported (DOther ''int'')" by (simp add: Output_supported_def)
  have m: "\<not> Mutex context0" by (simp add: context0_def contextPool_New_def)
  have d: "NotDefaultField spider0 \<or> Request context0 = Some request0 \<and> Response context0 = Some response0"
    by (simp add: context0_def)
  have v: "\<not> NotDefaultField spider0" "Url request0 = ''http://x.test/a/report.csv?x=1''"
    "Header_Get (rq_Header (rs_Request response0)) ''Referer'' = ''http://x.test/''"
    by (simp_all add: spider0_def request0_def response0_def Header_Get_def)
  from unsupported_item_still_emitted [OF s g u d, of "''2016-01-02 03:04:05''"] s g u v m
  show ?thesis by simp
qed

text \<open>
  Claim C10 as it stands fails on a context without a response, as the one a seed
  request starts with, when the spider keeps the default fields: a rule named in the
  call resolves, the switch leaves the mapping nil, and GetReferer then reads the
  request header of the nil response. The panic comes after \<^verbatim>\<open>Lock\<close>:
  nothing is appended, and the mutex is left locked.
\<close>

theorem unsupported_item_no_response_counterexample:
  "spider seed_context = Some spider0
   \<and> Response seed_context = None
   \<and> \<not> NotDefaultField spider0
   \<and> \<not> Mutex seed_context
   \<and> getRule [''list''] seed_context = Inr (''list'', Some rule0)
   \<and> \<not> Output_supported (DOther ''int'')
   \<and> Output ''2016-01-02 03:04:05'' (DOther ''int'') [''list''] seed_context
       = Panicked NilDereference (seed_context\<lparr>Mutex := True\<rparr>) []"
  by (simp add: Output_def Output_switch_def Output_supported_def getRule_def seed_context_def
      contextPool_New_def Spider_GetRule_def spider0_def GetUrl_def GetReferer_def Lock_def)

text \<open>
  Claim C1, amended. Let a call to Output resolve its rule and return. It has appended
  one record, and after the call the rule is in the table under the resolved name.
  Keyed by names (a name-keyed map or a Temp), the record has the mapping given, every
  key of it is in the rule's field table after the call, and the table is the table
  before the call followed by the keys that were not in it, each once: its length grows
  by the number of new keys, every name that was in it keeps its index, and upserting
  the same keys again changes nothing. Keyed by indices, the spider and the rule's
  table are unchanged, and the keys of the record are the names the table has at the
  indices, the empty name standing for every index outside the table: they are names
  of the table when every index is a position of the table, and names of the table
  or the empty name otherwise. For an item of any other type the record has no key.
\<close>

theorem emitted_keys_and_field_table:
  assumes "spider c = Some sp"
    and "getRule ruleName c = Inr (rname, Some rule)"
    and "Output now item ruleName c = Returned () c' l"
  shows "\<exists>sp' rule' cell.
      spider c' = Some sp' \<and> Spider_GetRule sp' rname = Some rule'
      \<and> slice_elems (items c') = slice_elems (items c) @ [cell]
      \<and> field_keys cell \<subseteq> set (ItemFields rule') \<union> {[]}
      \<and> (\<forall>kvs. item = DMapString kvs \<or> item = DTemp kvs \<longrightarrow>
            Fields cell = Some kvs
            \<and> field_keys cell \<subseteq> set (ItemFields rule')
            \<and> rule' = upsert_keys rule (map fst kvs)
            \<and> sp' = store_rule rname rule' sp
            \<and> (\<exists>new. ItemFields rule' = ItemFields rule @ new \<and> distinct new
                   \<and> set new = fst ` set kvs - set (ItemFields rule))
            \<and> length (ItemFields rule')
                = length (ItemFields rule) + card (fst ` set kvs - set (ItemFields rule))
            \<and> (\<forall>k \<in> set (ItemFields rule).
                   index_of k (ItemFields rule') = index_of k (ItemFields rule))
            \<and> upsert_keys rule' (map fst kvs) = rule')
      \<and> (\<forall>m. item = DMapInt m \<longrightarrow>
            sp' = sp \<and> rule' = rule
            \<and> field_keys cell = Spider_GetItemField rule ` fst ` set m
            \<and> ((\<forall>k \<in> fst ` set m. 0 \<le> k \<and> k < int (length (ItemFields rule)))
                 \<longrightarrow> field_keys cell \<subseteq> set (ItemFields rule)))
      \<and> (\<not> Output_supported item \<longrightarrow> sp' = sp \<and> rule' = rule \<and> field_keys cell = {})"
proof -
  from Output_Returned [OF assms(2,3)] obtain fs c1 url referer t where
    sw: "Output_switch item rname rule c = Returned fs c1 l"
    and c': "c' = items_append (GetDataCell rname fs url referer t) c1" by blast
  define cell where "cell = GetDataCell rname fs url referer t"
  have found: "Spider_GetRule sp rname = Some rule"
    using assms(1,2) by (rule getRule_found)
  have app: "slice_elems (items c') = slice_elems (items c1) @ [cell]"
    by (simp add: c' cell_def items_append_def slice_elems_append)
  have sp': "spider c' = spider c1"
    by (simp add: c' items_append_def)
  have keys: "field_keys cell = (case fs of None \<Rightarrow> {} | Some kv \<Rightarrow> fst ` set kv)"
    by (simp add: cell_def field_keys_def GetDataCell_def)
  have fields: "Fields cell = fs"
    by (simp add: cell_def GetDataCell_def)
  consider (index) m where "item = DMapInt m"
    | (names) kvs where "item = DMapString kvs \<or> item = DTemp kvs"
    | (other) "\<not> Output_supported item"
    by (cases item) (auto simp: Output_supported_def)
  then show ?thesis
  proof cases
    case (index m)
    from sw have fs: "fs = Some (foldl (\<lambda>item2 (k, v). AList.update (Spider_GetItemField rule k) v item2) [] m)"
      and c1: "c1 = c"
      unfolding index Output_switch_index [OF assms(1) found] by simp_all
    have k: "field_keys cell = Spider_GetItemField rule ` fst ` set m"
      using keys unfolding fs by (simp add: CreatItem_keys)
    have A: "spider c' = Some sp" using sp' c1 assms(1) by simp
    have C: "slice_elems (items c') = slice_elems (items c) @ [cell]" using app c1 by simp
    have D: "field_keys cell \<subseteq> set (ItemFields rule) \<union> {[]}"
      unfolding k using GetItemField_range(1) [of rule] by auto
    have k2: "(\<forall>k \<in> fst ` set m. 0 \<le> k \<and> k < int (length (ItemFields rule)))
                 \<longrightarrow> field_keys cell \<subseteq> set (ItemFields rule)"
      unfolding k using GetItemField_range(2) [of _ rule] by auto
    have E: "\<forall>kvs. item = DMapString kvs \<or> item = DTemp kvs \<longrightarrow>
            Fields cell = Some kvs
            \<and> field_keys cell \<subseteq> set (ItemFields rule)
            \<and> rule = upsert_keys rule (map fst kvs)
            \<and> sp = store_rule rname rule sp
            \<and> (\<exists>new. ItemFields rule = ItemFields rule @ new \<and> distinct new
                   \<and> set new = fst ` set kvs - set (ItemFields rule))
            \<and> length (ItemFields rule)
                = length (ItemFields rule) + card (fst ` set kvs - set (ItemFields rule))
            \<and> (\<forall>k \<in> set (ItemFields rule).
                   index_of k (ItemFields rule) = index_of k (ItemFields rule))
            \<and> upsert_keys rule (map fst kvs) = rule"
      unfolding index by simp
    have F: "\<forall>m'. item = DMapInt m' \<longrightarrow>
            sp = sp \<and> rule = rule
            \<and> field_keys cell = Spider_GetItemField rule ` fst ` set m'
            \<and> ((\<forall>k \<in> fst ` set m'. 0 \<le> k \<and> k < int (length (ItemFields rule)))
                 \<longrightarrow> field_keys cell \<subseteq> set (ItemFields rule))"
      unfolding index using k k2 by simp
    have G: "\<not> Output_supported item \<longrightarrow> sp = sp \<and> rule = rule \<and> field_keys cell = {}"
      unfolding index by (simp add: Output_supported_def)
    show ?thesis
      by (rule exI [of _ sp], rule exI [of _ rule], rule exI [of _ cell])
         (intro conjI A found C D E F G)
  next
    case (names kvs)
    define rule' where "rule' = upsert_keys rule (map fst kvs)"
    define sp1 where "sp1 = store_rule rname rule' sp"
    from sw names have fs: "fs = Some kvs" and c1: "c1 = c\<lparr>spider := Some sp1\<rparr>"
      using Output_switch_names [OF assms(1), of kvs rname rule]
      unfolding sp1_def rule'_def by auto
    have k: "field_keys cell = fst ` set kvs"
      using keys unfolding fs by simp
    note t = name_keyed_table [where rule = rule and kvs = kvs, folded rule'_def]
    have A: "spider c' = Some sp1" using sp' c1 by simp
    have B: "Spider_GetRule sp1 rname = Some rule'"
      by (simp add: sp1_def Spider_GetRule_def store_rule_def)
    have C: "slice_elems (items c') = slice_elems (items c) @ [cell]" using app c1 by simp
    have ks: "field_keys cell \<subseteq> set (ItemFields rule')"
      unfolding k by (rule t(1))
    have D: "field_keys cell \<subseteq> set (ItemFields rule') \<union> {[]}"
      using ks by blast
    have E: "\<forall>kvs'. item = DMapString kvs' \<or> item = DTemp kvs' \<longrightarrow>
            Fields cell = Some kvs'
            \<and> field_keys cell \<subseteq> set (ItemFields rule')
            \<and> rule' = upsert_keys rule (map fst kvs')
            \<and> sp1 = store_rule rname rule' sp
            \<and> (\<exists>new. ItemFields rule' = ItemFields rule @ new \<and> distinct new
                   \<and> set new = fst ` set kvs' - set (ItemFields rule))
            \<and> length (ItemFields rule')
                = length (ItemFields rule) + card (fst ` set kvs' - set (ItemFields rule))
            \<and> (\<forall>k \<in> set (ItemFields rule).
                   index_of k (ItemFields rule') = index_of k (ItemFields rule))
            \<and> upsert_keys rule' (map fst kvs') = rule'"
    proof (intro allI impI)
      fix kvs'
      assume "item = DMapString kvs' \<or> item = DTemp kvs'"
      with names have e: "kvs' = kvs" by auto
      have f: "Fields cell = Some kvs" using fields fs by simp
      show "Fields cell = Some kvs'
            \<and> field_keys cell \<subseteq> set (ItemFields rule')
            \<and> rule' = upsert_keys rule (map fst kvs')
            \<and> sp1 = store_rule rname rule' sp
            \<and> (\<exists>new. ItemFields rule' = ItemFields rule @ new \<and> distinct new
                   \<and> set new = fst ` set kvs' - set (ItemFields rule))
            \<and> length (ItemFields rule')
                = length (ItemFields rule) + card (fst ` set kvs' - set (ItemFields rule))
            \<and> (\<forall>k \<in> set (ItemFields rule).
                   index_of k (ItemFields rule') = index_of k (ItemFields rule))
            \<and> upsert_keys rule' (map fst kvs') = rule'"
        unfolding e by (intro conjI f ks rule'_def sp1_def t(2) t(3) t(4) t(5))
    qed
    have F: "\<forall>m. item = DMapInt m \<longrightarrow>
            sp1 = sp \<and> rule' = rule
            \<and> field_keys cell = Spider_GetItemField rule ` fst ` set m
            \<and> ((\<forall>k \<in> fst ` set m. 0 \<le> k \<and> k < int (length (ItemFields rule)))
                 \<longrightarrow> field_keys cell \<subseteq> set (ItemFields rule))"
      using names by (cases item) simp_all
    have G: "\<not> Output_supported item \<longrightarrow> sp1 = sp \<and> rule' = rule \<and> field_keys cell = {}"
      using names by (cases item) (simp_all add: Output_supported_def)
    show ?thesis
      by (rule exI [of _ sp1], rule exI [of _ rule'], rule exI [of _ cell])
         (intro conjI A B C D E F G)
  next
    case other
    from sw have fs: "fs = None" and c1: "c1 = c"
      unfolding Output_switch_unsupported [OF other] by simp_all
    have k: "field_keys cell = {}"
      using keys unfolding fs by simp
    have A: "spider c' = Some sp" using sp' c1 assms(1) by simp
    have C: "slice_elems (items c') = slice_elems (items c) @ [cell]" using app c1 by simp
    have D: "field_keys cell \<subseteq> set (ItemFields rule) \<union> {[]}"
      unfolding k by simp
    have E: "\<forall>kvs. item = DMapString kvs \<or> item = DTemp kvs \<longrightarrow>
            Fields cell = Some kvs
            \<and> field_keys cell \<subseteq> set (ItemFields rule)
            \<and> rule = upsert_keys rule (map fst kvs)
            \<and> sp = store_rule rname rule sp
            \<and> (\<exists>new. ItemFields rule = ItemFields rule @ new \<and> distinct new
                   \<and> set new = fst ` set kvs - set (ItemFields rule))
            \<and> length (ItemFields rule)
                = length (ItemFields rule) + card (fst ` set kvs - set (ItemFields rule))
            \<and> (\<forall>k \<in> set (ItemFields rule).
                   index_of k (ItemFields rule) = index_of k (ItemFields rule))
            \<and> upsert_keys rule (map fst kvs) = rule"
      using other by (cases item) (simp_all add: Output_supported_def)
    have F: "\<forall>m'. item = DMapInt m' \<longrightarrow>
            sp = sp \<and> rule = rule
            \<and> field_keys cell = Spider_GetItemField rule ` fst ` set m'
            \<and> ((\<forall>k \<in> fst ` set m'. 0 \<le> k \<and> k < int (length (ItemFields rule)))
                 \<longrightarrow> field_keys cell \<subseteq> set (ItemFields rule))"
      using other by (cases item) (simp_all add: Output_supported_def)
    have G: "\<not> Output_supported item \<longrightarrow> sp = sp \<and> rule = rule \<and> field_keys cell = {}"
      using k by simp
    show ?thesis
      by (rule exI [of _ sp], rule exI [of _ rule], rule exI [of _ cell])
         (intro conjI A found C D E F G)
  qed
qed

theorem emitted_keys_and_field_table_witness:
  "spider context0 = Some spider0
   \<and> getRule [] context0 = Inr (''list'', Some rule0)
   \<and> Output ''t'' (DMapString [(''title'', DString ''a''), (''price'', DString ''9'')]) [] context0
       = Returned ()
           (items_append
              (GetDataCell ''list'' (Some [(''title'', DString ''a''), (''price'', DString ''9'')])
                 ''http://x.test/a/report.csv?x=1'' ''http://x.test/'' ''t'')
              (context0\<lparr>spider := Some (store_rule ''list''
                  (rule0\<lparr>ItemFields := [''title'', ''price'']\<rparr>) spider0)\<rparr>)) []
   \<and> (\<exists>sp' rule' cell.
         spider (items_append
              (GetDataCell ''list'' (Some [(''title'', DString ''a''), (''price'', DString ''9'')])
                 ''http://x.test/a/report.csv?x=1'' ''http://x.test/'' ''t'')
              (context0\<lparr>spider := Some (store_rule ''list''
                  (rule0\<lparr>ItemFields := [''title'', ''price'']\<rparr>) spider0)\<rparr>)) = Some sp'
         \<and> Spider_GetRule sp' ''list'' = Some rule'
         \<and> field_keys cell \<subseteq> set (ItemFields rule') \<union> {[]})"
proof -
  define kvs where "kvs = [(''title'', DString ''a''), (''price'', DString ''9'')]"
  define cX where "cX = items_append
              (GetDataCell ''list'' (Some kvs)
                 ''http://x.test/a/report.csv?x=1'' ''http://x.test/'' ''t'')
              (context0\<lparr>spider := Some (store_rule ''list''
                  (rule0\<lparr>ItemFields := [''title'', ''price'']\<rparr>) spider0)\<rparr>)"
  have s: "spider context0 = Some spider0" by (simp add: context0_def)
  have g: "getRule [] context0 = Inr (''list'', Some rule0)"
    by (simp add: getRule_def GetRuleName_def context0_def Spider_GetRule_def spider0_def
        request0_def)
  have u: "upsert_keys rule0 [''title'', ''price''] = rule0\<lparr>ItemFields := [''title'', ''price'']\<rparr>"
    by (simp add: upsert_keys_def Spider_UpsertItemField_def rule0_def)
  have o: "Output ''t'' (DMapString kvs) [] context0 = Returned () cX []"
    unfolding Output_def g kvs_def cX_def
    by (simp add: Output_switch_def s u)
       (simp add: context0_def spider0_def GetUrl_def GetReferer_def request0_def response0_def
          Header_Get_def store_rule_def u Lock_def Unlock_def items_append_def
          contextPool_New_def)
  from emitted_keys_and_field_table [OF s g o] obtain sp' rule' cell where
    "spider cX = Some sp' \<and> Spider_GetRule sp' ''list'' = Some rule'
       \<and> slice_elems (items cX) = slice_elems (items context0) @ [cell]
       \<and> field_keys cell \<subseteq> set (ItemFields rule') \<union> {[]}"
    by (elim exE conjE) (intro that conjI)
  then have "\<exists>sp' rule' cell. spider cX = Some sp' \<and> Spider_GetRule sp' ''list'' = Some rule'
         \<and> field_keys cell \<subseteq> set (ItemFields rule') \<union> {[]}"
    by (intro exI [of _ sp'] exI [of _ rule'] exI [of _ cell]) simp
  with s g o show ?thesis
    unfolding kvs_def cX_def by (intro conjI)
qed

text \<open>
  Claim C1 as it stands fails for an index-keyed emission with an index outside the
  field table: position 5 of the one-name table of the rule gives the empty field name,
  which keys the record emitted and is not a name of the table.
\<close>

theorem index_keyed_out_of_range_counterexample:
  "Output ''t'' (DMapInt [(5, DString ''x'')]) [] context0
     = Returned ()
         (items_append
            (GetDataCell ''list'' (Some [([], DString ''x'')])
               ''http://x.test/a/report.csv?x=1'' ''http://x.test/'' ''t'') context0) []
   \<and> spider context0 = Some spider0
   \<and> Spider_GetRule spider0 ''list'' = Some rule0
   \<and> ItemFields rule0 = [''title'']
   \<and> \<not> field_keys (GetDataCell ''list'' (Some [([], DString ''x'')])
               ''http://x.test/a/report.csv?x=1'' ''http://x.test/'' ''t'')
         \<subseteq> set (ItemFields rule0)"
proof -
  have s: "spider context0 = Some spider0" by (simp add: context0_def)
  have g: "getRule [] context0 = Inr (''list'', Some rule0)"
    by (simp add: getRule_def GetRuleName_def context0_def Spider_GetRule_def spider0_def
        request0_def)
  have f: "Spider_GetRule spider0 ''list'' = Some rule0"
    by (simp add: Spider_GetRule_def spider0_def)
  have o: "Output ''t'' (DMapInt [(5, DString ''x'')]) [] context0
     = Returned ()
         (items_append
            (GetDataCell ''list'' (Some [([], DString ''x'')])
               ''http://x.test/a/report.csv?x=1'' ''http://x.test/'' ''t'') context0) []"
    unfolding Output_def g
    by (simp add: Output_switch_index [OF s f] s)
       (simp add: context0_def spider0_def GetUrl_def GetReferer_def request0_def response0_def
          Header_Get_def Spider_GetItemField_def rule0_def Lock_def Unlock_def
          items_append_def contextPool_New_def)
  have k: "\<not> field_keys (GetDataCell ''list'' (Some [([], DString ''x'')])
               ''http://x.test/a/report.csv?x=1'' ''http://x.test/'' ''t'')
         \<subseteq> set (ItemFields rule0)"
    by (simp add: field_keys_def GetDataCell_def rule0_def)
  have i: "ItemFields rule0 = [''title'']" by (simp add: rule0_def)
  show ?thesis by (intro conjI o s f i k)
qed

subsection \<open>The file name of FileOutput\<close>

text \<open>
  The two examples the spec gives for the file name, and the default extension, on the
  code.
\<close>

lemma FileOutput_name_spec_examples:
  "FileOutput_name ''http://x.test/a/report.csv?x=1'' [] = ''report.csv''"
  "FileOutput_name ''http://x.test/a/report.csv?x=1'' [''out''] = ''out.csv''"
  "FileOutput_name ''http://x.test/a/report'' [] = ''report.html''"
  by (simp_all add: FileOutput_name_def path_Split_def Split_first_def path_Ext_def)

text \<open>
  Claim C6. With no name given the claim has the file named by the last segment of the
  url, and with a name given it has the extension of that name preferred. The code
  takes as base name what stands before the first dot of the segment and as extension
  what stands from its last dot on, and it looks at the extension of the name given
  only when the url has none: for the url ending in \<^verbatim>\<open>report.tar.gz\<close> the file
  is named \<^verbatim>\<open>report.gz\<close>, and the name \<^verbatim>\<open>out.txt\<close> given for the url
  ending in \<^verbatim>\<open>report.csv\<close> names the file \<^verbatim>\<open>out.csv\<close>.
\<close>

theorem FileOutput_name_not_last_segment:
  "FileOutput [] (context0\<lparr>Request := Some (request0\<lparr>Url := ''http://x.test/a/report.tar.gz''\<rparr>)\<rparr>)
     = Returned ()
         (files_append (GetFileCell ''list'' ''report.gz'' ''abc'')
            (context0\<lparr>Request := Some (request0\<lparr>Url := ''http://x.test/a/report.tar.gz''\<rparr>),
               Response := Some (response0\<lparr>rs_Body := \<lparr>Data = [], Broken = None, Closed = True, ErrAfterClose = True\<rparr>\<rparr>)\<rparr>))
         []
   \<and> FileOutput [''out.txt''] context0
     = Returned ()
         (files_append (GetFileCell ''list'' ''out.csv'' ''abc'')
            (context0\<lparr>Response := Some (response0\<lparr>rs_Body := \<lparr>Data = [], Broken = None, Closed = True, ErrAfterClose = True\<rparr>\<rparr>)\<rparr>))
         []"
proof -
  have n: "FileOutput_name ''http://x.test/a/report.tar.gz'' [] = ''report.gz''"
    "FileOutput_name ''http://x.test/a/report.csv?x=1'' [''out.txt''] = ''out.csv''"
    by (simp_all add: FileOutput_name_def path_Split_def Split_first_def path_Ext_def)
  show ?thesis
    by (simp add: FileOutput_def context0_def response0_def request0_def ReadAll_def Close_def n
        Request_zero_def Lock_def Unlock_def files_append_def contextPool_New_def)
qed

subsection \<open>Parse\<close>

text \<open>
  Claim C3, amended. Let the context be bound to a spider that has not been told to
  stop (and to a request when it is bound to a response). Parse resolves the rule under
  the name given when there is one, else under the rule name recorded on the request
  when a response is bound, and finds none when neither a name nor a response is there;
  when a response is bound it writes the resolved name back onto the request; it then
  runs the Root of the spider's rule tree on the context when no rule was found, and
  the ParseFunc of the rule found otherwise. What the handler returns or panics with is
  what Parse ends with.
\<close>

theorem Parse_dispatch:
  assumes "spider c = Some sp"
    and "\<not> stopping sp"
    and "Response c \<noteq> None \<longrightarrow> Request c = Some rq"
  shows "let rname = (case ruleName of
                        name # _ \<Rightarrow> name
                      | [] \<Rightarrow> (case Response c of None \<Rightarrow> [] | Some _ \<Rightarrow> Rule rq));
             rule = (if ruleName = [] \<and> Response c = None then None else Spider_GetRule sp rname);
             c1 = (case Response c of
                     None \<Rightarrow> c
                   | Some _ \<Rightarrow> c\<lparr>Request := Some (SetRuleName rname rq)\<rparr>)
         in getRule ruleName c = Inr (rname, rule)
            \<and> Parse call ruleName c
                = (case rule of
                     None \<Rightarrow> call (Root (RuleTree sp)) c1
                   | Some r \<Rightarrow> call (ParseFunc r) c1)"
  using assms
  by (cases ruleName; cases "Response c")
     (simp_all add: Parse_def tryPanic_def getRule_def GetRuleName_def Let_def)

theorem Parse_dispatch_witness:
  "spider seed_context = Some spider0 \<and> \<not> stopping spider0
   \<and> Response seed_context = None
   \<and> getRule [] seed_context = Inr ([], None)
   \<and> (\<forall>call. Parse call [] seed_context = call (Handler 0) seed_context)
   \<and> (\<forall>call. Parse call [''list''] seed_context = call (Handler 1) seed_context)"
proof -
  have s: "spider seed_context = Some spider0" by (simp add: seed_context_def)
  have n: "\<not> stopping spider0" by (simp add: spider0_def)
  have r: "Response seed_context = None" by (simp add: seed_context_def contextPool_New_def)
  then have h: "Response seed_context \<noteq> None \<longrightarrow> Request seed_context = Some request0" by simp
  have v: "Root (RuleTree spider0) = Handler 0" "Spider_GetRule spider0 ''list'' = Some rule0"
    "ParseFunc rule0 = Handler 1"
    by (simp_all add: spider0_def Spider_GetRule_def rule0_def)
  have a: "getRule [] seed_context = Inr ([], None)
           \<and> Parse call [] seed_context = call (Handler 0) seed_context" for call
    using Parse_dispatch [OF s n h, of "[]" call] r v by (simp add: Let_def)
  have b: "Parse call [''list''] seed_context = call (Handler 1) seed_context" for call
    using Parse_dispatch [OF s n h, of "[''list'']" call] r v by (simp add: Let_def)
  from s n r a b show ?thesis by simp
qed

text \<open>
  Claim C3 as it stands fails on a spider that has been told to stop: tryPanic unwinds
  before the rule is looked up, so with no rule to be found the Root is not run, whatever
  it would do.
\<close>

theorem Parse_stopped_counterexample:
  "getRule [] stopped_context = Inr ([], None)
   \<and> (\<forall>call. Parse call [] stopped_context = Panicked ForcedStop stopped_context [])
   \<and> \<not> (\<forall>call. Parse call [] stopped_context
              = call (Root (RuleTree (spider0\<lparr>stopping := True\<rparr>))) stopped_context)"
proof -
  have g: "getRule [] stopped_context = Inr ([], None)"
    by (simp add: getRule_def stopped_context_def seed_context_def contextPool_New_def)
  have p: "Parse call [] stopped_context = Panicked ForcedStop stopped_context []" for call
    by (simp add: Parse_def tryPanic_def stopped_context_def seed_context_def)
  have "Parse (\<lambda>h c. Returned () c []) [] stopped_context
          \<noteq> (\<lambda>h c. Returned () c []) (Root (RuleTree (spider0\<lparr>stopping := True\<rparr>))) stopped_context"
    unfolding p by simp
  then have "\<not> (\<forall>call. Parse call [] stopped_context
              = call (Root (RuleTree (spider0\<lparr>stopping := True\<rparr>))) stopped_context)"
    by blast
  with g p show ?thesis by simp
qed

subsection \<open>AddQueue and JsAddQueue\<close>

lemma as_mismatch:
  "\<not> (case v of DString _ \<Rightarrow> True | _ \<Rightarrow> False) \<Longrightarrow> as_string (Some v) = None"
  "\<not> (case v of DBool _ \<Rightarrow> True | _ \<Rightarrow> False) \<Longrightarrow> as_bool (Some v) = None"
  "\<not> (case v of DInt64 _ \<Rightarrow> True | _ \<Rightarrow> False) \<Longrightarrow> as_int64 (Some v) = None"
  "\<not> (case v of DMapString _ \<Rightarrow> True | _ \<Rightarrow> False) \<Longrightarrow> as_map (Some v) = None"
  by (cases v; simp add: as_string_def as_bool_def as_int64_def as_map_def)+

lemma as_None:
  "as_string None = None" "as_bool None = None" "as_int64 None = None" "as_map None = None"
  by (simp_all add: as_string_def as_bool_def as_int64_def as_map_def)

lemma js_request_cong:
  assumes "as_string (j1 ''Url'') = as_string (j2 ''Url'')"
    and "as_string (j1 ''Rule'') = as_string (j2 ''Rule'')"
    and "as_string (j1 ''Method'') = as_string (j2 ''Method'')"
    and "(case as_map (j1 ''Header'') of Some hs \<Rightarrow> add_headers ex hs [] | None \<Rightarrow> [])
         = (case as_map (j2 ''Header'') of Some hs \<Rightarrow> add_headers ex hs [] | None \<Rightarrow> [])"
    and "as_string (j1 ''PostData'') = as_string (j2 ''PostData'')"
    and "as_bool (j1 ''Reloadable'') = as_bool (j2 ''Reloadable'')"
    and "as_int64 (j1 ''DialTimeout'') = as_int64 (j2 ''DialTimeout'')"
    and "as_int64 (j1 ''ConnTimeout'') = as_int64 (j2 ''ConnTimeout'')"
    and "as_int64 (j1 ''RetryPause'') = as_int64 (j2 ''RetryPause'')"
    and "as_int64 (j1 ''TryTimes'') = as_int64 (j2 ''TryTimes'')"
    and "as_int64 (j1 ''RedirectTimes'') = as_int64 (j2 ''RedirectTimes'')"
    and "as_int64 (j1 ''Priority'') = as_int64 (j2 ''Priority'')"
    and "as_int64 (j1 ''DownloaderID'') = as_int64 (j2 ''DownloaderID'')"
    and "as_map (j1 ''Temp'') = as_map (j2 ''Temp'')"
  shows "js_request ex j1 = js_request ex j2"
  unfolding js_request_def assms by (rule refl)

lemma mismatch_string:
  assumes "\<not> expected_shape key v" and "k \<in> {''Url'', ''Rule'', ''Method'', ''PostData''}"
  shows "as_string ((jreq(key \<mapsto> v)) k) = as_string ((jreq(key := None)) k)"
proof (cases "key = k")
  case True
  with assms have "\<not> (case v of DString _ \<Rightarrow> True | _ \<Rightarrow> False)"
    by (simp add: expected_shape_def)
  with True show ?thesis by (simp add: as_mismatch as_None)
next
  case False
  then show ?thesis by simp
qed

lemma mismatch_bool:
  assumes "\<not> expected_shape key v"
  shows "as_bool ((jreq(key \<mapsto> v)) ''Reloadable'') = as_bool ((jreq(key := None)) ''Reloadable'')"
proof (cases "key = ''Reloadable''")
  case True
  with assms have "\<not> (case v of DBool _ \<Rightarrow> True | _ \<Rightarrow> False)"
    by (simp add: expected_shape_def)
  with True show ?thesis by (simp add: as_mismatch as_None)
next
  case False
  then show ?thesis by simp
qed

lemma mismatch_int64:
  assumes "\<not> expected_shape key v"
    and "k \<in> {''DialTimeout'', ''ConnTimeout'', ''RetryPause'', ''TryTimes'',
               ''RedirectTimes'', ''Priority'', ''DownloaderID''}"
  shows "as_int64 ((jreq(key \<mapsto> v)) k) = as_int64 ((jreq(key := None)) k)"
proof (cases "key = k")
  case True
  with assms(2) have "key \<notin> {''Url'', ''Rule'', ''Method'', ''PostData''}" "key \<noteq> ''Reloadable''"
    by auto
  with assms True have "\<not> (case v of DInt64 _ \<Rightarrow> True | _ \<Rightarrow> False)"
    by (simp add: expected_shape_def)
  with True show ?thesis by (simp add: as_mismatch as_None)
next
  case False
  then show ?thesis by simp
qed

lemma mismatch_map:
  assumes "\<not> expected_shape key v" and "k \<in> {''Header'', ''Temp''}"
  shows "as_map ((jreq(key \<mapsto> v)) k) = as_map ((jreq(key := None)) k)"
proof (cases "key = k")
  case True
  with assms(2) have "key \<notin> {''Url'', ''Rule'', ''Method'', ''PostData''}" "key \<noteq> ''Reloadable''"
    "key \<notin> {''DialTimeout'', ''ConnTimeout'', ''RetryPause'', ''TryTimes'',
               ''RedirectTimes'', ''Priority'', ''DownloaderID''}"
    by auto
  with assms True have "\<not> (case v of DMapString _ \<Rightarrow> True | _ \<Rightarrow> False)"
    by (simp add: expected_shape_def)
  with True show ?thesis by (simp add: as_mismatch as_None)
next
  case False
  then show ?thesis by simp
qed

lemma js_request_mismatch:
  assumes "\<not> expected_shape key v"
  shows "js_request ex (jreq(key \<mapsto> v)) = js_request ex (jreq(key := None))"
proof (rule js_request_cong)
  show "(case as_map ((jreq(key \<mapsto> v)) ''Header'') of Some hs \<Rightarrow> add_headers ex hs [] | None \<Rightarrow> [])
         = (case as_map ((jreq(key := None)) ''Header'') of Some hs \<Rightarrow> add_headers ex hs [] | None \<Rightarrow> [])"
  proof -
    have "as_map ((jreq(key \<mapsto> v)) ''Header'') = as_map ((jreq(key := None)) ''Header'')"
      by (rule mismatch_map [OF assms]) simp
    then show ?thesis by simp
  qed
  show "as_string ((jreq(key \<mapsto> v)) ''Url'') = as_string ((jreq(key := None)) ''Url'')"
    by (rule mismatch_string [OF assms]) simp
  show "as_string ((jreq(key \<mapsto> v)) ''Rule'') = as_string ((jreq(key := None)) ''Rule'')"
    by (rule mismatch_string [OF assms]) simp
  show "as_string ((jreq(key \<mapsto> v)) ''Method'') = as_string ((jreq(key := None)) ''Method'')"
    by (rule mismatch_string [OF assms]) simp
  show "as_string ((jreq(key \<mapsto> v)) ''PostData'') = as_string ((jreq(key := None)) ''PostData'')"
    by (rule mismatch_string [OF assms]) simp
  show "as_bool ((jreq(key \<mapsto> v)) ''Reloadable'') = as_bool ((jreq(key := None)) ''Reloadable'')"
    by (rule mismatch_bool [OF assms])
  show "as_int64 ((jreq(key \<mapsto> v)) ''DialTimeout'') = as_int64 ((jreq(key := None)) ''DialTimeout'')"
    by (rule mismatch_int64 [OF assms]) simp
  show "as_int64 ((jreq(key \<mapsto> v)) ''ConnTimeout'') = as_int64 ((jreq(key := None)) ''ConnTimeout'')"
    by (rule mismatch_int64 [OF assms]) simp
  show "as_int64 ((jreq(key \<mapsto> v)) ''RetryPause'') = as_int64 ((jreq(key := None)) ''RetryPause'')"
    by (rule mismatch_int64 [OF assms]) simp
  show "as_int64 ((jreq(key \<mapsto> v)) ''TryTimes'') = as_int64 ((jreq(key := None)) ''TryTimes'')"
    by (rule mismatch_int64 [OF assms]) simp
  show "as_int64 ((jreq(key \<mapsto> v)) ''RedirectTimes'') = as_int64 ((jreq(key := None)) ''RedirectTimes'')"
    by (rule mismatch_int64 [OF assms]) simp
  show "as_int64 ((jreq(key \<mapsto> v)) ''Priority'') = as_int64 ((jreq(key := None)) ''Priority'')"
    by (rule mismatch_int64 [OF assms]) simp
  show "as_int64 ((jreq(key \<mapsto> v)) ''DownloaderID'') = as_int64 ((jreq(key := None)) ''DownloaderID'')"
    by (rule mismatch_int64 [OF assms]) simp
  show "as_map ((jreq(key \<mapsto> v)) ''Temp'') = as_map ((jreq(key := None)) ''Temp'')"
    by (rule mismatch_map [OF assms]) simp
qed

lemma add_headers_append:
  "add_headers ex (hs1 @ hs2) h = add_headers ex hs2 (add_headers ex hs1 h)"
  by (simp add: add_headers_def)

lemma add_headers_skip:
  assumes "as_strings (Some v) = None"
  shows "add_headers ex (hs1 @ (k, v) # hs2) h = add_headers ex (hs1 @ hs2) h"
proof -
  have "add_headers ex ((k, v) # hs2) h' = add_headers ex hs2 h'" for h'
    using assms by (simp add: add_headers_def)
  then show ?thesis by (simp add: add_headers_append)
qed

lemma js_request_header_skip:
  assumes "as_strings (Some v) = None"
  shows "js_request ex (jreq(''Header'' \<mapsto> DMapString (hs1 @ (k, v) # hs2)))
           = js_request ex (jreq(''Header'' \<mapsto> DMapString (hs1 @ hs2)))"
proof (rule js_request_cong)
  show "(case as_map ((jreq(''Header'' \<mapsto> DMapString (hs1 @ (k, v) # hs2))) ''Header'') of
           Some hs \<Rightarrow> add_headers ex hs [] | None \<Rightarrow> [])
         = (case as_map ((jreq(''Header'' \<mapsto> DMapString (hs1 @ hs2))) ''Header'') of
           Some hs \<Rightarrow> add_headers ex hs [] | None \<Rightarrow> [])"
    by (simp add: as_map_def add_headers_skip [OF assms])
qed simp_all

lemma SetReferer_GetReferer:
  "Request_GetReferer (Request_SetReferer url req) = url"
  by (simp add: Request_GetReferer_def Request_SetReferer_def Header_Get_def Header_Set_def
      update_conv')


lemma AddQueue_unfold:
  assumes "spider c = Some sp" and "\<not> stopping sp"
  shows "AddQueue ex req c = prepare_push ex req sp c"
    and "JsAddQueue ex jreq c
           = (case js_request ex jreq of None \<Rightarrow> Returned () c [] | Some r \<Rightarrow> AddQueue ex r c)"
  using assms by (simp_all add: AddQueue_def JsAddQueue_def tryPanic_def split: option.splits)

text \<open>
  Claim C8, amended. Let the context be bound to a spider that has not been told to
  stop (and to a request when it is bound to a response). When Prepare refuses the
  request, AddQueue logs the error and returns with the context, and so the submission
  queue, as it was. When Prepare accepts it, the request is pushed to the queue, with
  the context's url as its referer when it had none and a response is bound; with no
  response bound it is pushed as Prepare left it. JsAddQueue does to the request it
  builds from the parameter bag what AddQueue does; a bag whose Url is missing or not a
  string is dropped without a line logged; a field whose value does not have the shape
  expected counts as not given, as does a header whose value is not a slice of strings.
\<close>

theorem queueing_drops_or_pushes:
  assumes "spider c = Some sp"
    and "\<not> stopping sp"
    and "Response c \<noteq> None \<longrightarrow> Request c = Some rq"
  shows "(case Prepare ex (SetEnableCookie (GetEnableCookie sp) (SetSpiderName (GetName sp) req)) of
            Inl e \<Rightarrow> AddQueue ex req c = Returned () c [Log_Error (ErrorText e)]
          | Inr req1 \<Rightarrow>
              AddQueue ex req c
                = Returned ()
                    (c\<lparr>spider := Some (sp\<lparr>queue := queue sp @
                         [if Request_GetReferer req1 = [] \<and> Response c \<noteq> None
                          then Request_SetReferer (Url rq) req1 else req1]\<rparr>)\<rparr>) [])
         \<and> Request_GetReferer (Request_SetReferer (Url rq) req2) = Url rq
         \<and> JsAddQueue ex jreq c
             = (case js_request ex jreq of
                  None \<Rightarrow> Returned () c []
                | Some r \<Rightarrow> AddQueue ex r c)
         \<and> (as_string (jreq ''Url'') = None \<longrightarrow> JsAddQueue ex jreq c = Returned () c [])
         \<and> (\<not> expected_shape key v \<longrightarrow>
               JsAddQueue ex (jreq(key \<mapsto> v)) c = JsAddQueue ex (jreq(key := None)) c)
         \<and> (as_strings (Some v) = None \<longrightarrow>
               JsAddQueue ex (jreq(''Header'' \<mapsto> DMapString (hs1 @ (k, v) # hs2))) c
                 = JsAddQueue ex (jreq(''Header'' \<mapsto> DMapString (hs1 @ hs2))) c)"
proof -
  note u = AddQueue_unfold [OF assms(1,2)]
  have a: "(case Prepare ex (SetEnableCookie (GetEnableCookie sp) (SetSpiderName (GetName sp) req)) of
            Inl e \<Rightarrow> AddQueue ex req c = Returned () c [Log_Error (ErrorText e)]
          | Inr req1 \<Rightarrow>
              AddQueue ex req c
                = Returned ()
                    (c\<lparr>spider := Some (sp\<lparr>queue := queue sp @
                         [if Request_GetReferer req1 = [] \<and> Response c \<noteq> None
                          then Request_SetReferer (Url rq) req1 else req1]\<rparr>)\<rparr>) [])"
    using assms(3)
    by (cases "Prepare ex (SetEnableCookie (GetEnableCookie sp) (SetSpiderName (GetName sp) req))")
       (auto simp: u(1) prepare_push_def GetUrl_def RequestPush_def)
  have b: "Request_GetReferer (Request_SetReferer (Url rq) req2) = Url rq"
    by (rule SetReferer_GetReferer)
  have d: "as_string (jreq ''Url'') = None \<longrightarrow> JsAddQueue ex jreq c = Returned () c []"
    by (simp add: u(2) js_request_def)
  have e: "\<not> expected_shape key v \<longrightarrow>
               JsAddQueue ex (jreq(key \<mapsto> v)) c = JsAddQueue ex (jreq(key := None)) c"
    by (simp add: u(2) js_request_mismatch)
  have f: "as_strings (Some v) = None \<longrightarrow>
               JsAddQueue ex (jreq(''Header'' \<mapsto> DMapString (hs1 @ (k, v) # hs2))) c
                 = JsAddQueue ex (jreq(''Header'' \<mapsto> DMapString (hs1 @ hs2))) c"
    by (simp add: u(2) js_request_header_skip)
  show ?thesis by (intro conjI a b u(2) d e f)
qed

lemma next_request_prepared:
  "Prepare extern0 (SetEnableCookie (GetEnableCookie spider0) (SetSpiderName (GetName spider0) next_request))
     = Inr next_prepared"
  "Request_GetReferer next_prepared = []"
  by (simp_all add: extern0_def SetEnableCookie_def GetEnableCookie_def SetSpiderName_def
      GetName_def spider0_def next_request_def next_prepared_def Request_zero_def
      Request_GetReferer_def Header_Get_def)

theorem queueing_drops_or_pushes_witness:
  "spider context0 = Some spider0 \<and> \<not> stopping spider0
   \<and> Response context0 \<noteq> None \<and> Request context0 = Some request0
   \<and> AddQueue extern0 next_request context0
       = Returned ()
           (context0\<lparr>spider := Some (spider0\<lparr>queue :=
               [Request_SetReferer ''http://x.test/a/report.csv?x=1'' next_prepared]\<rparr>)\<rparr>) []
   \<and> Request_GetReferer (Request_SetReferer ''http://x.test/a/report.csv?x=1'' next_prepared)
       = ''http://x.test/a/report.csv?x=1''
   \<and> \<not> expected_shape ''Url'' (DInt64 3)
   \<and> JsAddQueue extern0 [''Url'' \<mapsto> DInt64 3] context0 = Returned () context0 []"
proof -
  have s: "spider context0 = Some spider0" by (simp add: context0_def)
  have n: "\<not> stopping spider0" by (simp add: spider0_def)
  have r: "Response context0 \<noteq> None" "Request context0 = Some request0"
    by (simp_all add: context0_def)
  then have h: "Response context0 \<noteq> None \<longrightarrow> Request context0 = Some request0" by simp
  have q: "queue spider0 = []" "Url request0 = ''http://x.test/a/report.csv?x=1''"
    by (simp_all add: spider0_def request0_def)
  have x: "\<not> expected_shape ''Url'' (DInt64 3)" by (simp add: expected_shape_def)
  have j: "JsAddQueue extern0 ((Map.empty(''Url'' \<mapsto> DInt64 3))(''Url'' := None)) context0
        = Returned () context0 []"
    by (simp add: AddQueue_unfold(2) [OF s n] js_request_def as_string_def)
  note t = queueing_drops_or_pushes [OF s n h, of extern0 next_request next_prepared
      Map.empty "''Url''" "DInt64 3"]
  from t have a: "AddQueue extern0 next_request context0
       = Returned ()
           (context0\<lparr>spider := Some (spider0\<lparr>queue :=
               [Request_SetReferer ''http://x.test/a/report.csv?x=1'' next_prepared]\<rparr>)\<rparr>) []"
    by (simp add: next_request_prepared r q)
  from t have b: "Request_GetReferer (Request_SetReferer ''http://x.test/a/report.csv?x=1'' next_prepared)
       = ''http://x.test/a/report.csv?x=1''"
    by (simp add: q)
  from t x j have c: "JsAddQueue extern0 [''Url'' \<mapsto> DInt64 3] context0 = Returned () context0 []"
    by simp
  show ?thesis by (intro conjI s n r a b x c)
qed

text \<open>
  Claim C8 as it stands fails on a context with no response bound, as the Root handler of
  a seed has it: the request passes Prepare and has no referer, and is pushed without
  one, the context's url not being copied.
\<close>

theorem queueing_no_response_counterexample:
  "spider seed_context = Some spider0 \<and> \<not> stopping spider0
   \<and> Prepare extern0 (SetEnableCookie (GetEnableCookie spider0)
         (SetSpiderName (GetName spider0) next_request)) = Inr next_prepared
   \<and> Request_GetReferer next_prepared = []
   \<and> GetUrl seed_context = Inr ''http://x.test/''
   \<and> AddQueue extern0 next_request seed_context
       = Returned () (seed_context\<lparr>spider := Some (spider0\<lparr>queue := [next_prepared]\<rparr>)\<rparr>) []
   \<and> Request_GetReferer next_prepared \<noteq> ''http://x.test/''"
proof -
  have s: "spider seed_context = Some spider0" by (simp add: seed_context_def)
  have n: "\<not> stopping spider0" by (simp add: spider0_def)
  have u: "GetUrl seed_context = Inr ''http://x.test/''"
    by (simp add: GetUrl_def seed_context_def)
  have r: "Response seed_context = None" by (simp add: seed_context_def contextPool_New_def)
  have a: "AddQueue extern0 next_request seed_context
       = Returned () (seed_context\<lparr>spider := Some (spider0\<lparr>queue := [next_prepared]\<rparr>)\<rparr>) []"
    unfolding AddQueue_unfold(1) [OF s n] prepare_push_def next_request_prepared
    by (simp add: r RequestPush_def spider0_def)
  have d: "Request_GetReferer next_prepared \<noteq> ''http://x.test/''"
    by (simp add: next_request_prepared)
  show ?thesis by (intro conjI s n next_request_prepared u a d)
qed

subsection \<open>The cached text and document\<close>

lemma GetText_cached: "ctx_text c \<noteq> [] \<Longrightarrow> GetText ex c = Returned (ctx_text c) c []"
  by (simp add: GetText_def)

lemma GetText_Returned:
  assumes "GetText ex c = Returned s c1 l"
  shows "ctx_text c1 = s"
  using assms by (auto simp: GetText_def split: if_splits outcome.splits)

lemma GetDom_cached: "ctx_dom c = Some d \<Longrightarrow> GetDom ex c = Returned (Some d) c []"
  by (simp add: GetDom_def)

lemma initDom_Returned:
  assumes "initDom ex c = Returned r c1 l"
  shows "\<exists>d. r = Some d \<and> ctx_dom c1 = Some d"
  using assms by (auto simp: initDom_def split: outcome.splits sum.splits)

lemma GetDom_Returned:
  assumes "GetDom ex c = Returned r c1 l"
  shows "\<exists>d. r = Some d \<and> ctx_dom c1 = Some d"
proof (cases "ctx_dom c")
  case None
  with assms obtain r' where "initDom ex c = Returned r' c1 l" and "r = ctx_dom c1"
    by (auto simp: GetDom_def split: outcome.splits)
  with initDom_Returned [of ex c r' c1 l] show ?thesis by auto
next
  case (Some d)
  with assms have "r = Some d" "c1 = c" by (simp_all add: GetDom_def)
  with Some show ?thesis by simp
qed

lemma GetDom_after_reset:
  assumes "body \<noteq> []" and "NewDocumentFromReader ex body = Inr d"
  shows "GetDom ex (ResetText body c)
           = Returned (Some d) ((ResetText body c)\<lparr>ctx_dom := Some d\<rparr>) []"
  using assms by (simp add: GetDom_def initDom_def GetText_def ResetText_def)

text \<open>
  Claim C7, amended. GetText on a context whose text is not empty returns that text
  and touches nothing: the context, the body of the response with it, is as before,
  and nothing is logged. So after a call to GetText that returned a text that is not
  empty, every further call returns the same text without reading the body, until
  ResetText replaces it. ResetText installs the text given and drops the cached
  document; a text installed that is not empty is what GetText returns from then on.
  GetDom on a context with a cached document returns it and touches nothing; a call of
  GetDom that returns leaves its document cached, so the next call does not parse. After
  ResetText with a text that is not empty, GetDom parses that text and caches the
  document.
\<close>

theorem text_and_document_cached:
  "(ctx_text c \<noteq> [] \<longrightarrow> GetText ex c = Returned (ctx_text c) c [])
   \<and> (GetText ex c = Returned s c1 l \<and> s \<noteq> [] \<longrightarrow> GetText ex c1 = Returned s c1 [])
   \<and> ctx_text (ResetText body c) = body \<and> ctx_dom (ResetText body c) = None
   \<and> (body \<noteq> [] \<longrightarrow> GetText ex (ResetText body c) = Returned body (ResetText body c) [])
   \<and> (ctx_dom c = Some d \<longrightarrow> GetDom ex c = Returned (Some d) c [])
   \<and> (GetDom ex c = Returned r c2 l2 \<longrightarrow>
         r = ctx_dom c2 \<and> r \<noteq> None \<and> GetDom ex c2 = Returned r c2 [])
   \<and> (body \<noteq> [] \<and> NewDocumentFromReader ex body = Inr d \<longrightarrow>
         GetDom ex (ResetText body c)
           = Returned (Some d) ((ResetText body c)\<lparr>ctx_dom := Some d\<rparr>) [])"
proof -
  have a: "ctx_text c \<noteq> [] \<longrightarrow> GetText ex c = Returned (ctx_text c) c []"
    by (simp add: GetText_cached)
  have b: "GetText ex c = Returned s c1 l \<and> s \<noteq> [] \<longrightarrow> GetText ex c1 = Returned s c1 []"
    using GetText_Returned [of ex c s c1 l] GetText_cached [of c1 ex] by auto
  have r: "ctx_text (ResetText body c) = body" "ctx_dom (ResetText body c) = None"
    by (simp_all add: ResetText_def)
  have e: "body \<noteq> [] \<longrightarrow> GetText ex (ResetText body c) = Returned body (ResetText body c) []"
    using GetText_cached [of "ResetText body c" ex] r by simp
  have f: "ctx_dom c = Some d \<longrightarrow> GetDom ex c = Returned (Some d) c []"
    by (simp add: GetDom_cached)
  have g: "GetDom ex c = Returned r c2 l2 \<longrightarrow>
         r = ctx_dom c2 \<and> r \<noteq> None \<and> GetDom ex c2 = Returned r c2 []"
    using GetDom_Returned [of ex c r c2 l2] GetDom_cached [of c2 _ ex] by auto
  have h: "body \<noteq> [] \<and> NewDocumentFromReader ex body = Inr d \<longrightarrow>
         GetDom ex (ResetText body c)
           = Returned (Some d) ((ResetText body c)\<lparr>ctx_dom := Some d\<rparr>) []"
    using GetDom_after_reset [of body ex d c] by simp
  show ?thesis by (intro conjI a b r e f g h)
qed

theorem text_and_document_cached_witness:
  "ctx_text context1 \<noteq> []
   \<and> GetText extern0 context1 = Returned ''abc'' context1 []
   \<and> ctx_dom context1 = Some (Document 0)
   \<and> GetDom extern0 context1 = Returned (Some (Document 0)) context1 []
   \<and> NewDocumentFromReader extern0 ''<p>'' = Inr (Document 3)
   \<and> GetDom extern0 (ResetText ''<p>'' context1)
       = Returned (Some (Document 3)) ((ResetText ''<p>'' context1)\<lparr>ctx_dom := Some (Document 3)\<rparr>) []"
proof -
  have t: "ctx_text context1 = ''abc''" "ctx_dom context1 = Some (Document 0)"
    by (simp_all add: context1_def)
  have n: "NewDocumentFromReader extern0 ''<p>'' = Inr (Document 3)"
    by (simp add: extern0_def)
  note th = text_and_document_cached [of context1 extern0 _ _ _ "''<p>''" "Document 0"]
    text_and_document_cached [of context1 extern0 _ _ _ "''<p>''" "Document 3"]
  from th t n show ?thesis by simp
qed

lemma empty_body_first:
  "GetText extern0 empty_body_context
     = Returned []
         (empty_body_context\<lparr>Response := Some
            \<lparr>rs_Header = [], rs_Body = \<lparr>Data = [], Broken = None, Closed = True, ErrAfterClose = True\<rparr>,
             rs_Request = \<lparr>rq_Header = []\<rparr>\<rparr>\<rparr>) []"
  by (simp add: GetText_def initText_def initText_raw_def empty_body_context_def context0_def
      contextPool_New_def request0_def Request_zero_def SURF_ID_def pageEncode_def charset_of_def
      Header_Get_def extern0_def ReadAll_def Close_def)

text \<open>
  Claim C7 as it stands fails for a response with an empty body: the empty text the
  first GetText returns is what GetText takes for no text yet, so the second call reads
  the body again. The body is closed by then; being one that net/http reads off the
  connection it refuses the read, and the call panics instead of returning the text.
\<close>

theorem empty_text_not_cached_counterexample:
  "GetText extern0 empty_body_context
     = Returned []
         (empty_body_context\<lparr>Response := Some
            \<lparr>rs_Header = [], rs_Body = \<lparr>Data = [], Broken = None, Closed = True, ErrAfterClose = True\<rparr>,
             rs_Request = \<lparr>rq_Header = []\<rparr>\<rparr>\<rparr>) []
   \<and> GetText extern0
         (empty_body_context\<lparr>Response := Some
            \<lparr>rs_Header = [], rs_Body = \<lparr>Data = [], Broken = None, Closed = True, ErrAfterClose = True\<rparr>,
             rs_Request = \<lparr>rq_Header = []\<rparr>\<rparr>\<rparr>)
     = Panicked (ErrorPanic ''http: read on closed response body'')
         (empty_body_context\<lparr>Response := Some
            \<lparr>rs_Header = [], rs_Body = \<lparr>Data = [], Broken = None, Closed = True, ErrAfterClose = True\<rparr>,
             rs_Request = \<lparr>rq_Header = []\<rparr>\<rparr>\<rparr>) []"
proof -
  have "GetText extern0
         (empty_body_context\<lparr>Response := Some
            \<lparr>rs_Header = [], rs_Body = \<lparr>Data = [], Broken = None, Closed = True, ErrAfterClose = True\<rparr>,
             rs_Request = \<lparr>rq_Header = []\<rparr>\<rparr>\<rparr>)
     = Panicked (ErrorPanic ''http: read on closed response body'')
         (empty_body_context\<lparr>Response := Some
            \<lparr>rs_Header = [], rs_Body = \<lparr>Data = [], Broken = None, Closed = True, ErrAfterClose = True\<rparr>,
             rs_Request = \<lparr>rq_Header = []\<rparr>\<rparr>\<rparr>) []"
    by (simp add: GetText_def initText_def initText_raw_def empty_body_context_def context0_def
      contextPool_New_def request0_def Request_zero_def SURF_ID_def pageEncode_def charset_of_def
      Header_Get_def extern0_def ReadAll_def Close_def)
  with empty_body_first show ?thesis by (intro conjI)
qed

subsection \<open>The charset of the text\<close>

lemma initText_raw_ok:
  assumes "Response c = Some resp" and "\<not> Closed (rs_Body resp)" and "Broken (rs_Body resp) = None"
  shows "initText_raw c l
           = Returned ()
               (c\<lparr>Response := Some (resp\<lparr>rs_Body := (rs_Body resp)\<lparr>Data := [], Closed := True\<rparr>\<rparr>),
                  ctx_text := Data (rs_Body resp)\<rparr>) l"
  using assms by (cases "rs_Body resp") (simp add: initText_raw_def ReadAll_def Close_def)

lemma initText_raw_broken:
  assumes "Response c = Some resp" and "\<not> Closed (rs_Body resp)" and "Broken (rs_Body resp) = Some e"
  shows "initText_raw c l
           = Panicked (ErrorPanic e)
               (c\<lparr>Response := Some (resp\<lparr>rs_Body := (rs_Body resp)\<lparr>Data := [], Closed := True\<rparr>\<rparr>)\<rparr>) l"
  using assms by (cases "rs_Body resp") (simp add: initText_raw_def ReadAll_def Close_def)

lemma initText_untranscoded:
  assumes "Request c = Some rq" and "Response c = Some resp"
    and "DownloaderID rq \<noteq> SURF_ID
         \<or> pageEncode ex rq resp \<in> {[], ''utf8'', ''utf-8'', ''unicode-1-1-utf-8''}"
  shows "initText ex c = initText_raw c []"
  using assms by (auto simp: initText_def Let_def)

lemma initText_unknown_label:
  assumes "Request c = Some rq" and "Response c = Some resp"
    and "DownloaderID rq = SURF_ID"
    and "pageEncode ex rq resp \<notin> {[], ''utf8'', ''utf-8'', ''unicode-1-1-utf-8''}"
    and "NewReaderLabel ex (pageEncode ex rq resp) = Inl e"
  shows "initText ex c = initText_raw c [Log_Warning (ConvertIgnored (Url rq) e)]"
  using assms by (simp add: initText_def Let_def)

lemma initText_transcoded:
  assumes "Request c = Some rq" and "Response c = Some resp"
    and "DownloaderID rq = SURF_ID"
    and "pageEncode ex rq resp \<notin> {[], ''utf8'', ''utf-8'', ''unicode-1-1-utf-8''}"
    and "NewReaderLabel ex (pageEncode ex rq resp) = Inr dec"
    and "dec (Data (rs_Body resp)) = Inr out"
    and "\<not> Closed (rs_Body resp)"
  shows "Broken (rs_Body resp) = None \<Longrightarrow>
           initText ex c
             = Returned ()
                 (c\<lparr>Response := Some (resp\<lparr>rs_Body := (rs_Body resp)\<lparr>Data := [], Closed := True\<rparr>\<rparr>),
                    ctx_text := out\<rparr>) []"
    and "Broken (rs_Body resp) = Some e \<Longrightarrow>
           initText ex c
             = Panicked (ErrorPanic e)
                 (c\<lparr>Response := Some (resp\<lparr>rs_Body := (rs_Body resp)\<lparr>Data := [], Closed := True\<rparr>\<rparr>)\<rparr>)
                 [Log_Warning (ConvertIgnored (Url rq) e)]"
  using assms
  by (cases "rs_Body resp";
      simp add: initText_def Let_def ReadAll_decoded_def initText_raw_def ReadAll_def Close_def)+

lemma GetText_initText:
  assumes "ctx_text c = []"
  shows "initText ex c = Returned () c1 l \<Longrightarrow> GetText ex c = Returned (ctx_text c1) c1 l"
    and "initText ex c = Panicked p c1 l \<Longrightarrow> GetText ex c = Panicked p c1 l"
  using assms by (simp_all add: GetText_def)

text \<open>
  Claim C4, amended. Take a context bound to a request and a response whose body has
  not been closed, with no text cached. The charset declared is the charset of the
  response's content type, lowered and trimmed, or when that gives nothing the charset
  of the request's content type. When the body reads to its end: if the fetch is not
  the Surf downloader's, or the charset declared is empty or one of the names of UTF-8,
  the text is the bytes of the body unchanged and nothing is logged; if another charset
  is declared and its label is unknown, a warning is logged and the text is again the
  bytes of the body unchanged; if the label is known and its decoder accepts the bytes,
  the text is what the decoder gives. When the stream of the body breaks, the call
  panics with the stream's error in every one of these cases; where a transcoding was
  tried first, its warning has been logged by then.
\<close>

theorem decoded_text_fallback:
  fixes c :: Context and ex :: extern and rq :: Request and resp :: http_Response
  defines "enc \<equiv> pageEncode ex rq resp"
    and "raw \<equiv> Data (rs_Body resp)"
    and "c_read \<equiv> c\<lparr>Response := Some (resp\<lparr>rs_Body := (rs_Body resp)\<lparr>Data := [], Closed := True\<rparr>\<rparr>)\<rparr>"
    and "c_raw \<equiv> c\<lparr>Response := Some (resp\<lparr>rs_Body := (rs_Body resp)\<lparr>Data := [], Closed := True\<rparr>\<rparr>),
                    ctx_text := Data (rs_Body resp)\<rparr>"
  assumes "Request c = Some rq" and "Response c = Some resp" and "ctx_text c = []"
    and "\<not> Closed (rs_Body resp)"
  shows "enc = (let e = charset_of ex (Header_Get (rs_Header resp) ''Content-Type'')
                in if e = [] then charset_of ex (Header_Get (Header rq) ''Content-Type'') else e)
     \<and> (Broken (rs_Body resp) = None \<longrightarrow>
          (DownloaderID rq \<noteq> SURF_ID \<or> enc \<in> {[], ''utf8'', ''utf-8'', ''unicode-1-1-utf-8''}
             \<longrightarrow> GetText ex c = Returned raw c_raw [])
          \<and> (DownloaderID rq = SURF_ID \<and> enc \<notin> {[], ''utf8'', ''utf-8'', ''unicode-1-1-utf-8''}
               \<and> NewReaderLabel ex enc = Inl lerr
             \<longrightarrow> GetText ex c = Returned raw c_raw [Log_Warning (ConvertIgnored (Url rq) lerr)])
          \<and> (DownloaderID rq = SURF_ID \<and> enc \<notin> {[], ''utf8'', ''utf-8'', ''unicode-1-1-utf-8''}
               \<and> NewReaderLabel ex enc = Inr dec \<and> dec raw = Inr out
             \<longrightarrow> GetText ex c = Returned out (c_raw\<lparr>ctx_text := out\<rparr>) []))
     \<and> (Broken (rs_Body resp) = Some serr \<longrightarrow>
          (DownloaderID rq \<noteq> SURF_ID \<or> enc \<in> {[], ''utf8'', ''utf-8'', ''unicode-1-1-utf-8''}
             \<longrightarrow> GetText ex c = Panicked (ErrorPanic serr) c_read [])
          \<and> (DownloaderID rq = SURF_ID \<and> enc \<notin> {[], ''utf8'', ''utf-8'', ''unicode-1-1-utf-8''}
               \<and> NewReaderLabel ex enc = Inl lerr
             \<longrightarrow> GetText ex c = Panicked (ErrorPanic serr) c_read
                                  [Log_Warning (ConvertIgnored (Url rq) lerr)])
          \<and> (DownloaderID rq = SURF_ID \<and> enc \<notin> {[], ''utf8'', ''utf-8'', ''unicode-1-1-utf-8''}
               \<and> NewReaderLabel ex enc = Inr dec \<and> dec raw = Inr out
             \<longrightarrow> GetText ex c = Panicked (ErrorPanic serr) c_read
                                  [Log_Warning (ConvertIgnored (Url rq) serr)]))"
proof -
  note a = assms(5,6)
  note t = GetText_initText [OF assms(7)]
  have e: "enc = (let e = charset_of ex (Header_Get (rs_Header resp) ''Content-Type'')
                in if e = [] then charset_of ex (Header_Get (Header rq) ''Content-Type'') else e)"
    by (simp add: enc_def pageEncode_def)
  have ok: "Broken (rs_Body resp) = None \<longrightarrow>
          (DownloaderID rq \<noteq> SURF_ID \<or> enc \<in> {[], ''utf8'', ''utf-8'', ''unicode-1-1-utf-8''}
             \<longrightarrow> GetText ex c = Returned raw c_raw [])
          \<and> (DownloaderID rq = SURF_ID \<and> enc \<notin> {[], ''utf8'', ''utf-8'', ''unicode-1-1-utf-8''}
               \<and> NewReaderLabel ex enc = Inl lerr
             \<longrightarrow> GetText ex c = Returned raw c_raw [Log_Warning (ConvertIgnored (Url rq) lerr)])
          \<and> (DownloaderID rq = SURF_ID \<and> enc \<notin> {[], ''utf8'', ''utf-8'', ''unicode-1-1-utf-8''}
               \<and> NewReaderLabel ex enc = Inr dec \<and> dec raw = Inr out
             \<longrightarrow> GetText ex c = Returned out (c_raw\<lparr>ctx_text := out\<rparr>) [])"
  proof (intro impI conjI)
    assume b: "Broken (rs_Body resp) = None"
    note r = initText_raw_ok [OF assms(6,8) b]
    {
      assume "DownloaderID rq \<noteq> SURF_ID \<or> enc \<in> {[], ''utf8'', ''utf-8'', ''unicode-1-1-utf-8''}"
      then have "initText ex c = Returned () c_raw []"
        unfolding enc_def c_raw_def using initText_untranscoded [OF a] r by simp
      from t(1) [OF this] show "GetText ex c = Returned raw c_raw []"
        by (simp add: c_raw_def raw_def)
    }
    {
      assume "DownloaderID rq = SURF_ID \<and> enc \<notin> {[], ''utf8'', ''utf-8'', ''unicode-1-1-utf-8''}
               \<and> NewReaderLabel ex enc = Inl lerr"
      then have "initText ex c = Returned () c_raw [Log_Warning (ConvertIgnored (Url rq) lerr)]"
        unfolding enc_def c_raw_def using initText_unknown_label [OF a] r by simp
      from t(1) [OF this]
      show "GetText ex c = Returned raw c_raw [Log_Warning (ConvertIgnored (Url rq) lerr)]"
        by (simp add: c_raw_def raw_def)
    }
    {
      assume "DownloaderID rq = SURF_ID \<and> enc \<notin> {[], ''utf8'', ''utf-8'', ''unicode-1-1-utf-8''}
               \<and> NewReaderLabel ex enc = Inr dec \<and> dec raw = Inr out"
      then have "initText ex c = Returned () (c_raw\<lparr>ctx_text := out\<rparr>) []"
        unfolding enc_def c_raw_def raw_def
        using initText_transcoded(1) [OF a _ _ _ _ assms(8) b, of ex dec out] by simp
      from t(1) [OF this]
      show "GetText ex c = Returned out (c_raw\<lparr>ctx_text := out\<rparr>) []"
        by simp
    }
  qed
  have bad: "Broken (rs_Body resp) = Some serr \<longrightarrow>
          (DownloaderID rq \<noteq> SURF_ID \<or> enc \<in> {[], ''utf8'', ''utf-8'', ''unicode-1-1-utf-8''}
             \<longrightarrow> GetText ex c = Panicked (ErrorPanic serr) c_read [])
          \<and> (DownloaderID rq = SURF_ID \<and> enc \<notin> {[], ''utf8'', ''utf-8'', ''unicode-1-1-utf-8''}
               \<and> NewReaderLabel ex enc = Inl lerr
             \<longrightarrow> GetText ex c = Panicked (ErrorPanic serr) c_read
                                  [Log_Warning (ConvertIgnored (Url rq) lerr)])
          \<and> (DownloaderID rq = SURF_ID \<and> enc \<notin> {[], ''utf8'', ''utf-8'', ''unicode-1-1-utf-8''}
               \<and> NewReaderLabel ex enc = Inr dec \<and> dec raw = Inr out
             \<longrightarrow> GetText ex c = Panicked (ErrorPanic serr) c_read
                                  [Log_Warning (ConvertIgnored (Url rq) serr)])"
  proof (intro impI conjI)
    assume b: "Broken (rs_Body resp) = Some serr"
    note r = initText_raw_broken [OF assms(6,8) b]
    {
      assume "DownloaderID rq \<noteq> SURF_ID \<or> enc \<in> {[], ''utf8'', ''utf-8'', ''unicode-1-1-utf-8''}"
      then have "initText ex c = Panicked (ErrorPanic serr) c_read []"
        unfolding enc_def c_read_def using initText_untranscoded [OF a] r by simp
      from t(2) [OF this] show "GetText ex c = Panicked (ErrorPanic serr) c_read []" .
    }
    {
      assume "DownloaderID rq = SURF_ID \<and> enc \<notin> {[], ''utf8'', ''utf-8'', ''unicode-1-1-utf-8''}
               \<and> NewReaderLabel ex enc = Inl lerr"
      then have "initText ex c = Panicked (ErrorPanic serr) c_read
                   [Log_Warning (ConvertIgnored (Url rq) lerr)]"
        unfolding enc_def c_read_def using initText_unknown_label [OF a] r by simp
      from t(2) [OF this]
      show "GetText ex c = Panicked (ErrorPanic serr) c_read
              [Log_Warning (ConvertIgnored (Url rq) lerr)]" .
    }
    {
      assume "DownloaderID rq = SURF_ID \<and> enc \<notin> {[], ''utf8'', ''utf-8'', ''unicode-1-1-utf-8''}
               \<and> NewReaderLabel ex enc = Inr dec \<and> dec raw = Inr out"
      then have "initText ex c = Panicked (ErrorPanic serr) c_read
                   [Log_Warning (ConvertIgnored (Url rq) serr)]"
        unfolding enc_def c_read_def raw_def
        using initText_transcoded(2) [OF a _ _ _ _ assms(8) b, of ex dec out] by simp
      from t(2) [OF this]
      show "GetText ex c = Panicked (ErrorPanic serr) c_read
              [Log_Warning (ConvertIgnored (Url rq) serr)]" .
    }
  qed
  show ?thesis by (intro conjI e ok bad)
qed

lemma klingon_facts:
  "Request klingon_context = Some request0"
  "Response klingon_context = Some
       \<lparr>rs_Header = [(''Content-Type'', [''text/html; charset=klingon''])],
        rs_Body = \<lparr>Data = ''abc'', Broken = None, Closed = False, ErrAfterClose = True\<rparr>,
        rs_Request = \<lparr>rq_Header = []\<rparr>\<rparr>"
  "ctx_text klingon_context = []"
  "DownloaderID request0 = SURF_ID"
  "Url request0 = ''http://x.test/a/report.csv?x=1''"
  "pageEncode extern0 request0
       \<lparr>rs_Header = [(''Content-Type'', [''text/html; charset=klingon''])],
        rs_Body = \<lparr>Data = ''abc'', Broken = None, Closed = False, ErrAfterClose = True\<rparr>,
        rs_Request = \<lparr>rq_Header = []\<rparr>\<rparr> = ''klingon''"
  "NewReaderLabel extern0 ''klingon'' = Inl ''unsupported charset: klingon''"
  by (simp_all add: klingon_context_def context0_def contextPool_New_def request0_def
      Request_zero_def SURF_ID_def pageEncode_def charset_of_def Header_Get_def extern0_def)

theorem decoded_text_fallback_witness:
  "Request klingon_context = Some request0
   \<and> ctx_text klingon_context = []
   \<and> DownloaderID request0 = SURF_ID
   \<and> NewReaderLabel extern0 ''klingon'' = Inl ''unsupported charset: klingon''
   \<and> GetText extern0 klingon_context
       = Returned ''abc''
           (klingon_context\<lparr>Response := Some
               \<lparr>rs_Header = [(''Content-Type'', [''text/html; charset=klingon''])],
                rs_Body = \<lparr>Data = [], Broken = None, Closed = True, ErrAfterClose = True\<rparr>,
                rs_Request = \<lparr>rq_Header = []\<rparr>\<rparr>,
              ctx_text := ''abc''\<rparr>)
           [Log_Warning (ConvertIgnored ''http://x.test/a/report.csv?x=1''
              ''unsupported charset: klingon'')]"
proof -
  have b: "\<not> Closed (rs_Body \<lparr>rs_Header = [(''Content-Type'', [''text/html; charset=klingon''])],
        rs_Body = \<lparr>Data = ''abc'', Broken = None, Closed = False, ErrAfterClose = True\<rparr>,
        rs_Request = \<lparr>rq_Header = []\<rparr>\<rparr>)" by simp
  note t = decoded_text_fallback [OF klingon_facts(1,2,3) b, of extern0
      "''unsupported charset: klingon''"]
  from t have "GetText extern0 klingon_context
       = Returned ''abc''
           (klingon_context\<lparr>Response := Some
               \<lparr>rs_Header = [(''Content-Type'', [''text/html; charset=klingon''])],
                rs_Body = \<lparr>Data = [], Broken = None, Closed = True, ErrAfterClose = True\<rparr>,
                rs_Request = \<lparr>rq_Header = []\<rparr>\<rparr>,
              ctx_text := ''abc''\<rparr>)
           [Log_Warning (ConvertIgnored ''http://x.test/a/report.csv?x=1''
              ''unsupported charset: klingon'')]"
    by (simp add: klingon_facts(4,5,6,7))
  with klingon_facts(1,3,4,7) show ?thesis by (intro conjI)
qed

text \<open>
  Claim C4 as it stands fails where the transcoding fails on a stream that breaks: a
  response of the Surf downloader declares GBK, the read through the decoder fails,
  the warning is logged, and the read of the raw bytes that follows fails on the same
  stream, so the call panics and no text is set.
\<close>

theorem transcoding_stream_error_counterexample:
  "Request broken_gbk_context = Some request0
   \<and> DownloaderID request0 = SURF_ID
   \<and> Response broken_gbk_context = Some
       \<lparr>rs_Header = [(''Content-Type'', [''text/html; charset=GBK''])],
        rs_Body = \<lparr>Data = ''abc'', Broken = Some ''unexpected EOF'', Closed = False, ErrAfterClose = True\<rparr>,
        rs_Request = \<lparr>rq_Header = []\<rparr>\<rparr>
   \<and> pageEncode extern0 request0
       \<lparr>rs_Header = [(''Content-Type'', [''text/html; charset=GBK''])],
        rs_Body = \<lparr>Data = ''abc'', Broken = Some ''unexpected EOF'', Closed = False, ErrAfterClose = True\<rparr>,
        rs_Request = \<lparr>rq_Header = []\<rparr>\<rparr> = ''gbk''
   \<and> NewReaderLabel extern0 ''gbk'' = Inr (\<lambda>bs. Inr bs)
   \<and> fst (ReadAll_decoded (\<lambda>bs. Inr bs)
         \<lparr>Data = ''abc'', Broken = Some ''unexpected EOF'', Closed = False, ErrAfterClose = True\<rparr>)
       = Inl ''unexpected EOF''
   \<and> GetText extern0 broken_gbk_context
       = Panicked (ErrorPanic ''unexpected EOF'')
           (broken_gbk_context\<lparr>Response := Some
               \<lparr>rs_Header = [(''Content-Type'', [''text/html; charset=GBK''])],
                rs_Body = \<lparr>Data = [], Broken = Some ''unexpected EOF'', Closed = True, ErrAfterClose = True\<rparr>,
                rs_Request = \<lparr>rq_Header = []\<rparr>\<rparr>\<rparr>)
           [Log_Warning (ConvertIgnored ''http://x.test/a/report.csv?x=1'' ''unexpected EOF'')]"
proof -
  have f: "Request broken_gbk_context = Some request0" "DownloaderID request0 = SURF_ID"
    "Response broken_gbk_context = Some
       \<lparr>rs_Header = [(''Content-Type'', [''text/html; charset=GBK''])],
        rs_Body = \<lparr>Data = ''abc'', Broken = Some ''unexpected EOF'', Closed = False, ErrAfterClose = True\<rparr>,
        rs_Request = \<lparr>rq_Header = []\<rparr>\<rparr>"
    by (simp_all add: broken_gbk_context_def context0_def request0_def Request_zero_def SURF_ID_def)
  have p: "pageEncode extern0 request0
       \<lparr>rs_Header = [(''Content-Type'', [''text/html; charset=GBK''])],
        rs_Body = \<lparr>Data = ''abc'', Broken = Some ''unexpected EOF'', Closed = False, ErrAfterClose = True\<rparr>,
        rs_Request = \<lparr>rq_Header = []\<rparr>\<rparr> = ''gbk''"
    by (simp add: pageEncode_def charset_of_def Header_Get_def extern0_def)
  have n: "NewReaderLabel extern0 ''gbk'' = Inr (\<lambda>bs. Inr bs)"
    by (simp add: extern0_def)
  have d: "fst (ReadAll_decoded (\<lambda>bs. Inr bs)
         \<lparr>Data = ''abc'', Broken = Some ''unexpected EOF'', Closed = False, ErrAfterClose = True\<rparr>)
       = Inl ''unexpected EOF''"
    by (simp add: ReadAll_decoded_def)
  have t: "ctx_text broken_gbk_context = []"
    by (simp add: broken_gbk_context_def context0_def contextPool_New_def)
  have u: "Url request0 = ''http://x.test/a/report.csv?x=1''" by (simp add: request0_def)
  have i: "initText extern0 broken_gbk_context
       = Panicked (ErrorPanic ''unexpected EOF'')
           (broken_gbk_context\<lparr>Response := Some
               \<lparr>rs_Header = [(''Content-Type'', [''text/html; charset=GBK''])],
                rs_Body = \<lparr>Data = [], Broken = Some ''unexpected EOF'', Closed = True, ErrAfterClose = True\<rparr>,
                rs_Request = \<lparr>rq_Header = []\<rparr>\<rparr>\<rparr>)
           [Log_Warning (ConvertIgnored ''http://x.test/a/report.csv?x=1'' ''unexpected EOF'')]"
    by (simp add: initText_def f p n u Let_def ReadAll_decoded_def initText_raw_def ReadAll_def
        Close_def)
  have g: "GetText extern0 broken_gbk_context
       = Panicked (ErrorPanic ''unexpected EOF'')
           (broken_gbk_context\<lparr>Response := Some
               \<lparr>rs_Header = [(''Content-Type'', [''text/html; charset=GBK''])],
                rs_Body = \<lparr>Data = [], Broken = Some ''unexpected EOF'', Closed = True, ErrAfterClose = True\<rparr>,
                rs_Request = \<lparr>rq_Header = []\<rparr>\<rparr>\<rparr>)
           [Log_Warning (ConvertIgnored ''http://x.test/a/report.csv?x=1'' ''unexpected EOF'')]"
    by (simp add: GetText_def t i)
  show ?thesis by (intro conjI f p n d g)
qed

end
